theory Spec2Isabelle
  imports Main "HOL-Library.Char_ord" "HOL-Library.List_Lexorder" "HOL-Library.Multiset"
begin

section \<open>Go strings and the library functions the program calls\<close>

text \<open>
  A Go string is a sequence of bytes; it is modelled as a \<^typ>\<open>string\<close>, a list of
  8-bit characters. Go compares strings byte by byte, which is the lexicographic order
  of \<^typ>\<open>char list\<close>.
\<close>

definition nl :: char where
  "nl = CHR 0x0A"

definition cr :: char where
  "cr = CHR 0x0D"

definition strings_HasPrefix :: "string \<Rightarrow> string \<Rightarrow> bool" where
  "strings_HasPrefix s p = (take (length p) s = p)"

definition strings_TrimPrefix :: "string \<Rightarrow> string \<Rightarrow> string" where
  "strings_TrimPrefix s p = (if strings_HasPrefix s p then drop (length p) s else s)"

text \<open>\<open>strings.Join(elems, sep)\<close>.\<close>

fun strings_Join :: "string list \<Rightarrow> string \<Rightarrow> string" where
  "strings_Join [] sep = []"
| "strings_Join [x] sep = x"
| "strings_Join (x # y # ys) sep = x @ sep @ strings_Join (y # ys) sep"

text \<open>
  \<open>strings.Trim(s, cutset)\<close> for a cutset of ASCII characters (the program's cutset is
  the two quote characters): leading and trailing bytes of the cutset are removed.
\<close>

definition strings_Trim :: "string \<Rightarrow> string \<Rightarrow> string" where
  "strings_Trim s cutset =
     rev (dropWhile (\<lambda>c. c \<in> set cutset) (rev (dropWhile (\<lambda>c. c \<in> set cutset) s)))"

text \<open>
  \<open>strings.TrimSpace\<close> removes leading and trailing white space as Unicode defines it.
  On the bytes of a string these are the UTF-8 encodings below: the six ASCII
  characters, U+0085, U+00A0, U+1680, U+2000 to U+200A, U+2028, U+2029, U+202F, U+205F
  and U+3000. A rune decoded at either end of a string is one of them exactly when the
  string starts (ends) with its encoding.
\<close>

definition spaceEncodings :: "string list" where
  "spaceEncodings =
     [[CHR 0x09], [CHR 0x0A], [CHR 0x0B], [CHR 0x0C], [CHR 0x0D], [CHR 0x20],
      [CHR 0xC2, CHR 0x85], [CHR 0xC2, CHR 0xA0],
      [CHR 0xE1, CHR 0x9A, CHR 0x80],
      [CHR 0xE2, CHR 0x80, CHR 0x80], [CHR 0xE2, CHR 0x80, CHR 0x81],
      [CHR 0xE2, CHR 0x80, CHR 0x82], [CHR 0xE2, CHR 0x80, CHR 0x83],
      [CHR 0xE2, CHR 0x80, CHR 0x84], [CHR 0xE2, CHR 0x80, CHR 0x85],
      [CHR 0xE2, CHR 0x80, CHR 0x86], [CHR 0xE2, CHR 0x80, CHR 0x87],
      [CHR 0xE2, CHR 0x80, CHR 0x88], [CHR 0xE2, CHR 0x80, CHR 0x89],
      [CHR 0xE2, CHR 0x80, CHR 0x8A],
      [CHR 0xE2, CHR 0x80, CHR 0xA8], [CHR 0xE2, CHR 0x80, CHR 0xA9],
      [CHR 0xE2, CHR 0x80, CHR 0xAF],
      [CHR 0xE2, CHR 0x81, CHR 0x9F],
      [CHR 0xE3, CHR 0x80, CHR 0x80]]"

text \<open>The rest of \<open>s\<close> after the first of the encodings that \<open>s\<close> starts with.\<close>

fun dropEncoding :: "string list \<Rightarrow> string \<Rightarrow> string option" where
  "dropEncoding [] s = None"
| "dropEncoding (e # es) s =
     (if e \<noteq> [] \<and> strings_HasPrefix s e then Some (drop (length e) s)
      else dropEncoding es s)"

lemma dropEncoding_shorter: "dropEncoding es s = Some r \<Longrightarrow> length r < length s"
  by (induction es) (cases s; auto simp: strings_HasPrefix_def split: if_splits)+

function trimLeftEncodings :: "string list \<Rightarrow> string \<Rightarrow> string" where
  "trimLeftEncodings es s =
     (case dropEncoding es s of None \<Rightarrow> s | Some r \<Rightarrow> trimLeftEncodings es r)"
  by pat_completeness auto
termination
  by (relation "measure (\<lambda>(es, s). length s)") (auto dest: dropEncoding_shorter)

declare trimLeftEncodings.simps [simp del]

definition strings_TrimSpace :: "string \<Rightarrow> string" where
  "strings_TrimSpace s =
     rev (trimLeftEncodings (map rev spaceEncodings)
       (rev (trimLeftEncodings spaceEncodings s)))"

text \<open>
  \<open>strings.Split(s, sep)\<close> for a non-empty separator: the pieces between the
  occurrences of \<open>sep\<close>, found from the left. \<open>cur\<close> is the piece being read.
\<close>

fun splitAcc :: "string \<Rightarrow> string \<Rightarrow> string \<Rightarrow> string list" where
  "splitAcc sep cur [] = [cur]"
| "splitAcc sep cur (c # cs) =
     (if sep \<noteq> [] \<and> strings_HasPrefix (c # cs) sep
      then cur # splitAcc sep [] (drop (length sep - 1) cs)
      else splitAcc sep (cur @ [c]) cs)"

definition strings_Split :: "string \<Rightarrow> string \<Rightarrow> string list" where
  "strings_Split s sep = splitAcc sep [] s"

text \<open>\<open>strings.SplitN(s, sep, 2)\<close>: at most two pieces, cut at the first \<open>sep\<close>.\<close>

fun splitN2Acc :: "string \<Rightarrow> string \<Rightarrow> string \<Rightarrow> string list" where
  "splitN2Acc sep cur [] = [cur]"
| "splitN2Acc sep cur (c # cs) =
     (if sep \<noteq> [] \<and> strings_HasPrefix (c # cs) sep
      then [cur, drop (length sep - 1) cs]
      else splitN2Acc sep (cur @ [c]) cs)"

definition strings_SplitN2 :: "string \<Rightarrow> string \<Rightarrow> string list" where
  "strings_SplitN2 s sep = splitN2Acc sep [] s"

text \<open>\<open>strings.ReplaceAll(s, old, new)\<close> for a non-empty \<open>old\<close>.\<close>

definition strings_ReplaceAll :: "string \<Rightarrow> string \<Rightarrow> string \<Rightarrow> string" where
  "strings_ReplaceAll s old new = strings_Join (strings_Split s old) new"

subsection \<open>encoding/base64, StdEncoding\<close>

definition encodeStd :: string where
  "encodeStd = ''ABCDEFGHIJKLMNOPQRSTUVWXYZabcdefghijklmnopqrstuvwxyz0123456789+/''"

definition padChar :: char where
  "padChar = CHR ''=''"

text \<open>\<open>enc.encode[v & 0x3F]\<close>.\<close>

definition encodeChar :: "nat \<Rightarrow> char" where
  "encodeChar v = encodeStd ! (v mod 64)"

text \<open>
  \<open>EncodeToString\<close>: three bytes make the 24-bit value
  \<open>src[0] << 16 | src[1] << 8 | src[2]\<close>, written as four characters; a remainder of
  one or two bytes is padded with \<open>=\<close>.
\<close>

fun base64_EncodeToString :: "string \<Rightarrow> string" where
  "base64_EncodeToString [] = []"
| "base64_EncodeToString [a] =
     (let v = of_char a * 65536 :: nat
      in [encodeChar (v div 262144), encodeChar (v div 4096), padChar, padChar])"
| "base64_EncodeToString [a, b] =
     (let v = of_char a * 65536 + of_char b * 256 :: nat
      in [encodeChar (v div 262144), encodeChar (v div 4096), encodeChar (v div 64), padChar])"
| "base64_EncodeToString (a # b # c # rest) =
     (let v = of_char a * 65536 + of_char b * 256 + of_char c :: nat
      in [encodeChar (v div 262144), encodeChar (v div 4096), encodeChar (v div 64),
          encodeChar v] @ base64_EncodeToString rest)"

text \<open>The decode map: the position of a character in the alphabet.\<close>

fun indexOf :: "char \<Rightarrow> string \<Rightarrow> nat option" where
  "indexOf c [] = None"
| "indexOf c (x # xs) = (if x = c then Some 0 else map_option Suc (indexOf c xs))"

definition decodeChar :: "char \<Rightarrow> nat option" where
  "decodeChar c = indexOf c encodeStd"

text \<open>
  \<open>DecodeString\<close> reads quanta of four characters, ignoring every \<open>\r\<close> and \<open>\n\<close>.
  Padding is required and may only end the input; a character outside the alphabet, a
  short last quantum or anything after the padding is a \<open>CorruptInputError\<close>
  (\<open>None\<close>). The encoding is not strict: the unused low bits of a padded quantum are
  not checked.
\<close>

fun decodeQuanta :: "string \<Rightarrow> string option" where
  "decodeQuanta [] = Some []"
| "decodeQuanta (a # b # c # d # rest) =
     (case (decodeChar a, decodeChar b) of
        (Some x, Some y) \<Rightarrow>
          (if c = padChar then
             (if d = padChar \<and> rest = []
              then Some [char_of ((x * 262144 + y * 4096) div 65536)]
              else None)
           else case decodeChar c of
             None \<Rightarrow> None
           | Some z \<Rightarrow>
               (if d = padChar then
                  (if rest = []
                   then Some (let v = x * 262144 + y * 4096 + z * 64
                              in [char_of (v div 65536), char_of (v div 256)])
                   else None)
                else case decodeChar d of
                  None \<Rightarrow> None
                | Some w \<Rightarrow>
                    (let v = x * 262144 + y * 4096 + z * 64 + w
                     in map_option
                          (\<lambda>bs. [char_of (v div 65536), char_of (v div 256), char_of v] @ bs)
                          (decodeQuanta rest))))
      | _ \<Rightarrow> None)"
| "decodeQuanta _ = None"

definition base64_DecodeString :: "string \<Rightarrow> string option" where
  "base64_DecodeString s = decodeQuanta (filter (\<lambda>c. c \<noteq> cr \<and> c \<noteq> nl) s)"

subsection \<open>bufio.Scanner with the default split function ScanLines\<close>

text \<open>
  A token is the text up to a newline, without the newline and without one trailing
  carriage return; unterminated text at the end of the input is a last token. The
  scanner's buffer holds at most \<open>MaxScanTokenSize\<close> bytes: when that many bytes hold
  no complete line, \<open>Scan\<close> returns false and \<open>Err\<close> is \<open>ErrTooLong\<close>. \<open>scanLines\<close>
  gives the tokens that \<open>Scan\<close> delivers, and whether it stopped with that error.
\<close>

definition MaxScanTokenSize :: nat where
  "MaxScanTokenSize = 65536"

definition dropCR :: "string \<Rightarrow> string" where
  "dropCR l = (if l \<noteq> [] \<and> last l = cr then butlast l else l)"

fun scanLinesAcc :: "string \<Rightarrow> string \<Rightarrow> string list \<times> bool" where
  "scanLinesAcc cur [] =
     (if cur = [] then ([], False)
      else if MaxScanTokenSize \<le> length cur then ([], True)
      else ([dropCR cur], False))"
| "scanLinesAcc cur (c # cs) =
     (if c = nl then
        (if MaxScanTokenSize \<le> length cur then ([], True)
         else case scanLinesAcc [] cs of (ls, e) \<Rightarrow> (dropCR cur # ls, e))
      else scanLinesAcc (cur @ [c]) cs)"

definition scanLines :: "string \<Rightarrow> string list \<times> bool" where
  "scanLines data = scanLinesAcc [] data"

subsection \<open>path/filepath\<close>

text \<open>
  Paths are strings with \<open>/\<close> as separator. \<open>filepath.Join\<close> and \<open>filepath.Dir\<close> clean
  their result: \<open>pathClean\<close> collapses repeated separators and drops a trailing one.
  What \<open>filepath.Clean\<close> does with \<open>.\<close> and \<open>..\<close> elements is left out; the paths of
  this program have none unless the configuration or a name brings them in.
\<close>

fun squeezeSlashes :: "string \<Rightarrow> string" where
  "squeezeSlashes (c # d # cs) =
     (if c = CHR ''/'' \<and> d = CHR ''/'' then squeezeSlashes (d # cs)
      else c # squeezeSlashes (d # cs))"
| "squeezeSlashes cs = cs"

definition pathClean :: "string \<Rightarrow> string" where
  "pathClean p =
     (let q = squeezeSlashes p
      in if q = [] then ''.''
         else if length q > 1 \<and> last q = CHR ''/'' then butlast q else q)"

definition filepath_Join :: "string \<Rightarrow> string \<Rightarrow> string" where
  "filepath_Join a b =
     (if a = [] \<and> b = [] then []
      else pathClean (if a = [] then b else if b = [] then a else a @ ''/'' @ b))"

definition filepath_Dir :: "string \<Rightarrow> string" where
  "filepath_Dir p = pathClean (rev (dropWhile (\<lambda>c. c \<noteq> CHR ''/'') (rev p)))"

section \<open>The data model\<close>

text \<open>
  \<open>type Override struct\<close>. The collection \<open>app.overrides\<close> is a slice of pointers
  \<open>[]*Override\<close>: the objects live in a store (\<open>heap\<close>), the collection lists their
  addresses, and \<open>renameTarget\<close> is one more pointer into the same store. \<open>nextAddr\<close>
  is the address the next \<open>&Override{...}\<close> gets.
\<close>

record Override =
  Name :: string
  Type :: string
  Block :: string
  File :: string
  ModulePath :: string
  Module :: string
  Content :: string
  ApplyInfo :: string
  FolderPath :: string

record Config =
  EnvVarName :: string
  OverridesDir :: string
  ProjectEnvFile :: string

type_synonym addr = nat

text \<open>
  \<open>type App struct\<close>, without the widgets. Of the two list widgets only the current
  item is kept (\<open>availableCur\<close>, \<open>appliedCur\<close>).
\<close>

record App =
  config :: Config
  heap :: "addr \<Rightarrow> Override"
  nextAddr :: addr
  overrides :: "addr list"
  applied :: "string \<rightharpoonup> bool"
  availableCur :: int
  appliedCur :: int
  currentPanelIdx :: int
  projectRoot :: string
  helpOpen :: bool
  inputOpen :: bool
  deleteOpen :: bool
  renameOpen :: bool
  renameTarget :: "addr option"

text \<open>
  \<open>app.applied[name]\<close> on a \<open>map[string]bool\<close>: a missing key reads as \<open>false\<close>.
\<close>

definition isApplied :: "(string \<rightharpoonup> bool) \<Rightarrow> string \<Rightarrow> bool" where
  "isApplied m name = (case m name of None \<Rightarrow> False | Some b \<Rightarrow> b)"

text \<open>The Applied set and the names of the registry, as the claims speak of them.\<close>

definition appliedSet :: "App \<Rightarrow> string set" where
  "appliedSet app = {name. isApplied (applied app) name}"

definition registryNames :: "App \<Rightarrow> string list" where
  "registryNames app = map (\<lambda>a. Name (heap app a)) (overrides app)"

text \<open>
  \<open>sort.Slice(app.overrides, func(i, j) { return overrides[i].Name < overrides[j].Name })\<close>.
  \<open>sort.Slice\<close> leaves the order of elements with equal names open; the model sorts
  stably.
\<close>

definition sortByName :: "(addr \<Rightarrow> Override) \<Rightarrow> addr list \<Rightarrow> addr list" where
  "sortByName h as = sort_key (\<lambda>a. Name (h a)) as"

section \<open>The world outside the process\<close>

text \<open>
  What the calls into the operating system return. The state file
  \<open>filepath.Join(projectRoot, ProjectEnvFile)\<close> is the one file whose content the
  program writes and reads back, so it is state (\<open>envrc\<close>). The overrides directory is
  read through \<open>ReadDir\<close> and \<open>ReadFile\<close>; whether a call that changes it fails is given
  per call (\<open>MkdirAllFails\<close>, \<open>RenameFails\<close>, \<open>RemoveAllFails\<close>), as are the failure of
  \<open>os.WriteFile\<close> on the state file and of the \<open>direnv allow\<close> command.
  \<open>yamlUnmarshal\<close> stands for \<open>yaml.Unmarshal\<close> into the struct of the five recognised
  keys (\<open>None\<close> when it returns an error); the parser is not part of the repository.
\<close>

datatype FileState = FileMissing | FileUnreadable | FileContent string

record DirEntry =
  entName :: string
  entIsDir :: bool

record Meta =
  metaType :: string
  metaBlock :: string
  metaFile :: string
  metaModulePath :: string
  metaModule :: string

record World =
  envrc :: FileState
  writeFails :: bool
  direnvFails :: bool
  ReadDir :: "string \<Rightarrow> DirEntry list option"
  ReadFile :: "string \<Rightarrow> string option"
  MkdirAllFails :: "string \<Rightarrow> bool"
  RenameFails :: "string \<Rightarrow> string \<Rightarrow> bool"
  RemoveAllFails :: "string \<Rightarrow> bool"
  yamlUnmarshal :: "string \<Rightarrow> Meta option"
  homeDir :: string
  envPROJECT_ROOT :: string
  workDir :: string

datatype error = ReadDirError | OpenError | DecodeError | ErrTooLong | WriteError | DirenvError

definition expandPath :: "World \<Rightarrow> string \<Rightarrow> string" where
  "expandPath w path =
     (if strings_HasPrefix path ''~/'' then filepath_Join (homeDir w) (drop 2 path)
      else if strings_HasPrefix path ''$PROJECT_ROOT'' then
        (let root = (if envPROJECT_ROOT w = [] then workDir w else envPROJECT_ROOT w)
         in filepath_Join root (drop (length ''$PROJECT_ROOT'') path))
      else path)"

section \<open>Loading the registry\<close>

text \<open>
  The frontmatter of \<open>apply.md\<close> as \<open>loadOverrides\<close> reads it: when the content starts
  with \<open>---\<close>, the text up to the next \<open>---\<close> is parsed, and only a parse without error
  sets the five fields.
\<close>

definition emptyOverride :: Override where
  "emptyOverride =
     \<lparr>Name = [], Type = [], Block = [], File = [], ModulePath = [], Module = [],
      Content = [], ApplyInfo = [], FolderPath = []\<rparr>"

fun loadEntries :: "World \<Rightarrow> string \<Rightarrow> DirEntry list \<Rightarrow> App \<Rightarrow> App" where
  "loadEntries w dir [] app = app"
| "loadEntries w dir (entry # rest) app =
     (if \<not> entIsDir entry then loadEntries w dir rest app
      else
        let overridePath = filepath_Join dir (entName entry);
            applyPath = filepath_Join overridePath ''apply.md'';
            overrideYAMLPath = filepath_Join overridePath ''override.yaml''
        in case ReadFile w applyPath of
             None \<Rightarrow> loadEntries w dir rest app
           | Some applyContent \<Rightarrow>
               (let ov0 = emptyOverride\<lparr>Name := entName entry, FolderPath := overridePath,
                            ApplyInfo := applyContent\<rparr>;
                    ov1 =
                      (if strings_HasPrefix applyContent ''---'' then
                         (case strings_SplitN2 (drop 3 applyContent) ''---'' of
                            [] \<Rightarrow> ov0
                          | part0 # _ \<Rightarrow>
                              (case yamlUnmarshal w part0 of
                                 None \<Rightarrow> ov0
                               | Some meta \<Rightarrow>
                                   ov0\<lparr>Type := metaType meta, Block := metaBlock meta,
                                       File := metaFile meta,
                                       ModulePath := metaModulePath meta,
                                       Module := metaModule meta\<rparr>))
                       else ov0);
                    ov2 =
                      (case ReadFile w overrideYAMLPath of
                         None \<Rightarrow> ov1
                       | Some overrideContent \<Rightarrow> ov1\<lparr>Content := overrideContent\<rparr>);
                    a = nextAddr app
                in loadEntries w dir rest
                     (app\<lparr>heap := (heap app)(a := ov2), nextAddr := Suc a,
                          overrides := overrides app @ [a]\<rparr>)))"

definition loadOverrides :: "World \<Rightarrow> App \<Rightarrow> error option \<times> App" where
  "loadOverrides w app =
     (let dir = expandPath w (OverridesDir (config app))
      in case ReadDir w dir of
           None \<Rightarrow> (Some ReadDirError, app)
         | Some entries \<Rightarrow>
             (let app1 = loadEntries w dir entries app
              in (None, app1\<lparr>overrides := sortByName (heap app1) (overrides app1)\<rparr>)))"

section \<open>The persisted state\<close>

definition dquote :: char where
  "dquote = CHR 0x22"

definition squote :: char where
  "squote = CHR 0x27"

text \<open>The loop over the decoded names in \<open>loadPersistedState\<close>.\<close>

fun addNames :: "(string \<rightharpoonup> bool) \<Rightarrow> string list \<Rightarrow> (string \<rightharpoonup> bool)" where
  "addNames ap [] = ap"
| "addNames ap (n # ns) =
     (let name = strings_TrimSpace n
      in if name \<noteq> [] then addNames (ap(name \<mapsto> True)) ns else addNames ap ns)"

text \<open>
  The loop over the scanned lines: the first line with the prefix decides. After the
  loop the function returns \<open>scanner.Err()\<close>, which is set only when the scanner
  stopped before the end of the file.
\<close>

fun loadLines ::
  "string \<Rightarrow> string list \<Rightarrow> bool \<Rightarrow> (string \<rightharpoonup> bool) \<Rightarrow> error option \<times> (string \<rightharpoonup> bool)" where
  "loadLines pfx [] scanErr ap = ((if scanErr then Some ErrTooLong else None), ap)"
| "loadLines pfx (line # rest) scanErr ap =
     (if strings_HasPrefix line pfx then
        (let v = strings_Trim (strings_TrimPrefix line pfx) [dquote, squote]
         in if v = [] then (None, ap)
            else case base64_DecodeString v of
                   None \<Rightarrow> (Some DecodeError, ap)
                 | Some decoded \<Rightarrow> (None, addNames ap (strings_Split decoded '','')))
      else loadLines pfx rest scanErr ap)"

definition loadPersistedState :: "World \<Rightarrow> App \<Rightarrow> error option \<times> App" where
  "loadPersistedState w app =
     (case envrc w of
        FileMissing \<Rightarrow> (None, app)
      | FileUnreadable \<Rightarrow> (Some OpenError, app)
      | FileContent data \<Rightarrow>
          (case scanLines data of
             (lines, scanErr) \<Rightarrow>
               (case loadLines (''export '' @ EnvVarName (config app) @ ''='') lines scanErr
                       (applied app) of
                  (err, ap) \<Rightarrow> (err, app\<lparr>applied := ap\<rparr>))))"

section \<open>The override string\<close>

text \<open>The loop of \<open>buildOverrideString\<close>, appending to \<open>parts\<close>.\<close>

fun buildParts ::
  "(addr \<Rightarrow> Override) \<Rightarrow> (string \<rightharpoonup> bool) \<Rightarrow> addr list \<Rightarrow> string list \<Rightarrow> string list" where
  "buildParts h ap [] parts = parts"
| "buildParts h ap (a # as) parts =
     (let ov = h a in
      if \<not> isApplied ap (Name ov) then buildParts h ap as parts
      else
        let modulePath = (if ModulePath ov = [] then ''overrides/'' @ Name ov else ModulePath ov);
            module = (if Module ov = [] then ''override'' else Module ov);
            overrideStr = Type ov @ modulePath @ ''@'' @ Block ov @ ''='' @ module
        in buildParts h ap as (parts @ [overrideStr]))"

definition buildOverrideString :: "App \<Rightarrow> string" where
  "buildOverrideString app =
     strings_Join (buildParts (heap app) (applied app) (overrides app) []) [nl]"

section \<open>Saving the persisted state\<close>

text \<open>The first loop of \<open>savePersistedState\<close>: the lines of the existing file that are kept.\<close>

fun keepLines :: "string \<Rightarrow> string list \<Rightarrow> string list \<Rightarrow> string list" where
  "keepLines pfx [] lines = lines"
| "keepLines pfx (line # rest) lines =
     (if \<not> strings_HasPrefix line pfx \<and> \<not> strings_HasPrefix line ''export HYDRA_OVERRIDE_STR=''
      then keepLines pfx rest (lines @ [line])
      else keepLines pfx rest lines)"

text \<open>The second loop: the names of the collection that are applied, in its order.\<close>

fun collectApplied ::
  "(addr \<Rightarrow> Override) \<Rightarrow> (string \<rightharpoonup> bool) \<Rightarrow> addr list \<Rightarrow> string list \<Rightarrow> string list" where
  "collectApplied h ap [] appliedNames = appliedNames"
| "collectApplied h ap (a # as) appliedNames =
     (if isApplied ap (Name (h a)) then collectApplied h ap as (appliedNames @ [Name (h a)])
      else collectApplied h ap as appliedNames)"

text \<open>
  The lines that \<open>savePersistedState\<close> writes. An existing file that cannot be opened
  contributes no lines, and the scanner's error is not looked at.
\<close>

definition savedLines :: "App \<Rightarrow> FileState \<Rightarrow> string list" where
  "savedLines app f =
     (let lines0 =
            (case f of
               FileContent data \<Rightarrow>
                 keepLines (''export '' @ EnvVarName (config app) @ ''='') (fst (scanLines data)) []
             | _ \<Rightarrow> []);
          appliedNames = collectApplied (heap app) (applied app) (overrides app) [];
          lines1 =
            (if length appliedNames > 0 then
               (let encoded = base64_EncodeToString (strings_Join appliedNames '','')
                in lines0 @ [''export '' @ EnvVarName (config app) @ ''='' @ [dquote] @ encoded @ [dquote]])
             else lines0);
          overrideStr = strings_ReplaceAll (buildOverrideString app) [nl] '' ''
      in lines1 @ [''export HYDRA_OVERRIDE_STR='' @ [dquote] @ overrideStr @ [dquote]])"

definition savePersistedState :: "App \<Rightarrow> World \<Rightarrow> error option \<times> World" where
  "savePersistedState app w =
     (if writeFails w then (Some WriteError, w)
      else
        (let w1 = w\<lparr>envrc := FileContent (strings_Join (savedLines app (envrc w)) [nl] @ [nl])\<rparr>
         in ((if direnvFails w then Some DirenvError else None), w1)))"

section \<open>Selection and the operations on the registry\<close>

definition getAvailableOverrides :: "App \<Rightarrow> addr list" where
  "getAvailableOverrides app =
     filter (\<lambda>a. \<not> isApplied (applied app) (Name (heap app a))) (overrides app)"

definition getAppliedOverrides :: "App \<Rightarrow> addr list" where
  "getAppliedOverrides app =
     filter (\<lambda>a. isApplied (applied app) (Name (heap app a))) (overrides app)"

text \<open>
  \<open>list[idx]\<close> guarded by \<open>idx >= 0 && idx < len(list)\<close>.
\<close>

definition itemAt :: "addr list \<Rightarrow> int \<Rightarrow> addr option" where
  "itemAt list idx = (if idx \<ge> 0 \<and> idx < int (length list) then Some (list ! nat idx) else None)"

definition getSelectedOverride :: "App \<Rightarrow> addr option" where
  "getSelectedOverride app =
     (let sel =
            (if currentPanelIdx app = 0 then itemAt (getAvailableOverrides app) (availableCur app)
             else if currentPanelIdx app = 1 then itemAt (getAppliedOverrides app) (appliedCur app)
             else None)
      in case sel of
           Some a \<Rightarrow> Some a
         | None \<Rightarrow> (case overrides app of [] \<Rightarrow> None | a # _ \<Rightarrow> Some a))"

text \<open>
  \<open>refreshAll\<close> rebuilds both list widgets. A rebuilt list of \<open>n\<close> items keeps its
  current item \<open>cur\<close>, moved to the last item when it is past the end; an empty list
  has current item 0.
\<close>

definition refreshCursor :: "int \<Rightarrow> nat \<Rightarrow> int" where
  "refreshCursor cur n =
     (let c = (if cur \<ge> int n then int n - 1 else cur) in if c \<ge> 0 then c else 0)"

definition refreshAll :: "App \<Rightarrow> App" where
  "refreshAll app =
     app\<lparr>availableCur := refreshCursor (availableCur app) (length (getAvailableOverrides app)),
         appliedCur := refreshCursor (appliedCur app) (length (getAppliedOverrides app))\<rparr>"

definition toggleOverride :: "App \<Rightarrow> World \<Rightarrow> App \<times> World" where
  "toggleOverride app w =
     (if currentPanelIdx app = 0 then
        (case itemAt (getAvailableOverrides app) (availableCur app) of
           None \<Rightarrow> (app, w)
         | Some override \<Rightarrow>
             (let app1 = app\<lparr>applied := (applied app)(Name (heap app override) \<mapsto> True)\<rparr>
              in (refreshAll app1, snd (savePersistedState app1 w))))
      else if currentPanelIdx app = 1 then
        (case itemAt (getAppliedOverrides app) (appliedCur app) of
           None \<Rightarrow> (app, w)
         | Some override \<Rightarrow>
             (let app1 = app\<lparr>applied := (applied app)(Name (heap app override) := None)\<rparr>
              in (refreshAll app1, snd (savePersistedState app1 w))))
      else (app, w))"

text \<open>
  The loop of \<open>deleteSelectedOverride\<close>: the first element with the selected name is
  cut out of the slice.
\<close>

fun removeFirstNamed :: "(addr \<Rightarrow> Override) \<Rightarrow> string \<Rightarrow> addr list \<Rightarrow> addr list" where
  "removeFirstNamed h name [] = []"
| "removeFirstNamed h name (a # as) =
     (if Name (h a) = name then as else a # removeFirstNamed h name as)"

text \<open>
  \<open>deleteSelectedOverride\<close> has no result, and the error of \<open>os.RemoveAll\<close> is dropped:
  \<open>removeErr\<close> is bound and never read.
\<close>

definition deleteSelectedOverride :: "App \<Rightarrow> World \<Rightarrow> App \<times> World" where
  "deleteSelectedOverride app w =
     (case getSelectedOverride app of
        None \<Rightarrow> (app, w)
      | Some selected \<Rightarrow>
          (let selName = Name (heap app selected);
               app1 = app\<lparr>applied := (applied app)(selName := None)\<rparr>;
               app2 = app1\<lparr>overrides := removeFirstNamed (heap app1) selName (overrides app1)\<rparr>;
               removeErr = RemoveAllFails w (FolderPath (heap app selected))
           in (refreshAll app2, snd (savePersistedState app2 w))))"

definition renameSelectedOverride :: "string \<Rightarrow> App \<Rightarrow> World \<Rightarrow> App \<times> World" where
  "renameSelectedOverride newName app w =
     (case renameTarget app of
        None \<Rightarrow> (app, w)
      | Some target \<Rightarrow>
          (let oldName = Name (heap app target);
               oldPath = FolderPath (heap app target);
               newPath = filepath_Join (filepath_Dir oldPath) newName
           in if RenameFails w oldPath newPath then (app, w)
              else
                (let app1 = app\<lparr>heap := (heap app)
                                 (target := (heap app target)\<lparr>Name := newName, FolderPath := newPath\<rparr>)\<rparr>;
                     app2 = (if isApplied (applied app1) oldName
                             then app1\<lparr>applied := ((applied app1)(oldName := None))(newName \<mapsto> True)\<rparr>
                             else app1);
                     app3 = app2\<lparr>overrides := sortByName (heap app2) (overrides app2)\<rparr>
                 in (refreshAll app3, snd (savePersistedState app3 w)))))"

text \<open>
  \<open>createNewOverride\<close>. The two \<open>os.WriteFile\<close> calls write files of the overrides
  directory and their errors are dropped; they do not touch the process state.
\<close>

definition applyTemplate :: string where
  "applyTemplate =
     ''---'' @ [nl] @ ''type: '' @ [dquote, dquote] @ [nl] @ ''block: '' @ [dquote, dquote] @ [nl]
       @ ''---'' @ [nl]"

definition createNewOverride :: "string \<Rightarrow> App \<Rightarrow> World \<Rightarrow> App" where
  "createNewOverride name app w =
     (let dir = expandPath w (OverridesDir (config app));
          overridePath = filepath_Join dir name
      in if MkdirAllFails w overridePath then app
         else
           (let override = emptyOverride\<lparr>Name := name, Type := [], Block := [],
                             FolderPath := overridePath, ApplyInfo := applyTemplate\<rparr>;
                a = nextAddr app;
                app1 = app\<lparr>heap := (heap app)(a := override), nextAddr := Suc a,
                           overrides := overrides app @ [a]\<rparr>;
                app2 = app1\<lparr>overrides := sortByName (heap app1) (overrides app1)\<rparr>
            in refreshAll app2))"

text \<open>
  \<open>reloadOverride\<close>: the loop stops at the first element with the name. Its struct
  for the frontmatter has the three fields \<open>type\<close>, \<open>block\<close> and \<open>file\<close> only.
\<close>

fun reloadLoop :: "World \<Rightarrow> string \<Rightarrow> addr list \<Rightarrow> (addr \<Rightarrow> Override) \<Rightarrow> (addr \<Rightarrow> Override)" where
  "reloadLoop w name [] h = h"
| "reloadLoop w name (a # as) h =
     (if Name (h a) \<noteq> name then reloadLoop w name as h
      else
        let ov0 = h a;
            applyPath = filepath_Join (FolderPath ov0) ''apply.md'';
            ov1 =
              (case ReadFile w applyPath of
                 None \<Rightarrow> ov0
               | Some content \<Rightarrow>
                   (let ov = ov0\<lparr>ApplyInfo := content\<rparr>
                    in if strings_HasPrefix content ''---'' then
                         (case strings_SplitN2 (drop 3 content) ''---'' of
                            [] \<Rightarrow> ov
                          | part0 # _ \<Rightarrow>
                              (case yamlUnmarshal w part0 of
                                 None \<Rightarrow> ov
                               | Some meta \<Rightarrow>
                                   ov\<lparr>Type := metaType meta, Block := metaBlock meta,
                                      File := metaFile meta\<rparr>))
                       else ov));
            overridePath = filepath_Join (FolderPath ov0) ''override.yaml'';
            ov2 =
              (case ReadFile w overridePath of
                 None \<Rightarrow> ov1
               | Some content \<Rightarrow> ov1\<lparr>Content := content\<rparr>)
        in h(a := ov2))"

definition reloadOverride :: "string \<Rightarrow> App \<Rightarrow> World \<Rightarrow> App" where
  "reloadOverride name app w = app\<lparr>heap := reloadLoop w name (overrides app) (heap app)\<rparr>"

text \<open>
  The start of \<open>main\<close>: a fresh \<open>App\<close> with an empty \<open>applied\<close> map and no overrides.
\<close>

definition newApp :: "Config \<Rightarrow> string \<Rightarrow> App" where
  "newApp cfg root =
     \<lparr>config = cfg, heap = (\<lambda>_. emptyOverride), nextAddr = 0, overrides = [],
      applied = Map.empty, availableCur = 0, appliedCur = 0, currentPanelIdx = 0,
      projectRoot = root, helpOpen = False, inputOpen = False, deleteOpen = False,
      renameOpen = False, renameTarget = None\<rparr>"

text \<open>
  \<open>showRenameInput\<close> and \<open>closeRenameInput\<close>, without the input field: the overlay
  remembers the selected Override in \<open>renameTarget\<close>.
\<close>

definition showRenameInput :: "App \<Rightarrow> App" where
  "showRenameInput app =
     (case getSelectedOverride app of
        None \<Rightarrow> app
      | Some selected \<Rightarrow> app\<lparr>renameOpen := True, renameTarget := Some selected\<rparr>)"

definition closeRenameInput :: "App \<Rightarrow> App" where
  "closeRenameInput app = app\<lparr>renameOpen := False, renameTarget := None\<rparr>"

text \<open>
  The start of \<open>main\<close>: an error of \<open>loadOverrides\<close> ends the process, an error of
  \<open>loadPersistedState\<close> is only printed.
\<close>

definition startup :: "Config \<Rightarrow> string \<Rightarrow> World \<Rightarrow> error + App" where
  "startup cfg root w =
     (case loadOverrides w (newApp cfg root) of
        (Some e, _) \<Rightarrow> Inl e
      | (None, app1) \<Rightarrow> Inr (snd (loadPersistedState w app1)))"

section \<open>Definitions for the statements\<close>

text \<open>
  What the claims speak of, named: the fragment of one Override, the parse of one
  directory entry, the lines of a file and the parts of the written state file. The
  lemmas below connect each of them to the loop of the program that computes it.
\<close>

text \<open>
  The fragment of one Override in the words of the specification:
  \<open><Type><modulePath>@<Block>=<module>\<close>, where the module path defaults to
  \<open>overrides/<Name>\<close> and the module to \<open>override\<close>.
\<close>

definition fragment :: "Override \<Rightarrow> string" where
  "fragment ov =
     Type ov @ (if ModulePath ov = [] then ''overrides/'' @ Name ov else ModulePath ov)
       @ ''@'' @ Block ov @ ''='' @ (if Module ov = [] then ''override'' else Module ov)"

text \<open>
  What a fresh parse of one directory entry produces: the Override that the body of the
  loop of \<open>loadOverrides\<close> builds for it, or nothing when the entry is skipped.
\<close>

definition parseEntry :: "World \<Rightarrow> string \<Rightarrow> DirEntry \<Rightarrow> Override option" where
  "parseEntry w dir entry =
     (if \<not> entIsDir entry then None
      else
        let overridePath = filepath_Join dir (entName entry)
        in case ReadFile w (filepath_Join overridePath ''apply.md'') of
             None \<Rightarrow> None
           | Some applyContent \<Rightarrow>
               (let ov0 = emptyOverride\<lparr>Name := entName entry, FolderPath := overridePath,
                            ApplyInfo := applyContent\<rparr>;
                    ov1 =
                      (if strings_HasPrefix applyContent ''---'' then
                         (case strings_SplitN2 (drop 3 applyContent) ''---'' of
                            [] \<Rightarrow> ov0
                          | part0 # _ \<Rightarrow>
                              (case yamlUnmarshal w part0 of
                                 None \<Rightarrow> ov0
                               | Some meta \<Rightarrow>
                                   ov0\<lparr>Type := metaType meta, Block := metaBlock meta,
                                       File := metaFile meta,
                                       ModulePath := metaModulePath meta,
                                       Module := metaModule meta\<rparr>))
                       else ov0)
                in Some (case ReadFile w (filepath_Join overridePath ''override.yaml'') of
                         None \<Rightarrow> ov1
                       | Some overrideContent \<Rightarrow> ov1\<lparr>Content := overrideContent\<rparr>)))"

text \<open>
  Every object of the collection has been allocated: its address is below \<open>nextAddr\<close>,
  so a new object never aliases one of the collection.
\<close>

definition allocated :: "App \<Rightarrow> bool" where
  "allocated app = (\<forall>a \<in> set (overrides app). a < nextAddr app)"

text \<open>
  The parts of the written file, named as the specification names them: the names that
  are applied and registered, in the order of the collection; the prefix of the
  applied-names assignment; the two managed lines; and the lines of the old file that
  are kept.
\<close>

definition appliedNamesOf :: "App \<Rightarrow> string list" where
  "appliedNamesOf app = filter (isApplied (applied app)) (registryNames app)"

definition managedPrefix :: "App \<Rightarrow> string" where
  "managedPrefix app = ''export '' @ EnvVarName (config app) @ ''=''"

definition isManaged :: "App \<Rightarrow> string \<Rightarrow> bool" where
  "isManaged app l \<longleftrightarrow>
     strings_HasPrefix l (managedPrefix app) \<or> strings_HasPrefix l ''export HYDRA_OVERRIDE_STR=''"

definition appliedLine :: "App \<Rightarrow> string" where
  "appliedLine app =
     managedPrefix app @ [dquote]
       @ base64_EncodeToString (strings_Join (appliedNamesOf app) '','') @ [dquote]"

definition overrideStrLine :: "App \<Rightarrow> string" where
  "overrideStrLine app =
     ''export HYDRA_OVERRIDE_STR='' @ [dquote]
       @ strings_ReplaceAll (buildOverrideString app) [nl] '' '' @ [dquote]"

definition managedLines :: "App \<Rightarrow> string list" where
  "managedLines app =
     (if appliedNamesOf app = [] then [] else [appliedLine app]) @ [overrideStrLine app]"

definition keptLines :: "App \<Rightarrow> FileState \<Rightarrow> string list" where
  "keptLines app f =
     (case f of
        FileContent data \<Rightarrow> filter (\<lambda>l. \<not> isManaged app l) (fst (scanLines data))
      | _ \<Rightarrow> [])"

text \<open>
  The lines of a text in the plain sense: the pieces between newlines, with a last piece
  when the text does not end in a newline. \<open>cur\<close> is the line being read.
\<close>

fun textLinesAcc :: "string \<Rightarrow> string \<Rightarrow> string list" where
  "textLinesAcc cur [] = (if cur = [] then [] else [cur])"
| "textLinesAcc cur (c # cs) =
     (if c = nl then cur # textLinesAcc [] cs else textLinesAcc (cur @ [c]) cs)"

definition textLines :: "string \<Rightarrow> string list" where
  "textLines data = textLinesAcc [] data"

section \<open>Example worlds and states\<close>

text \<open>The registry of the scenario: \<open>alpha\<close> and \<open>beta\<close>, with a given \<open>applied\<close> map.\<close>

definition alphaBetaApp :: "(string \<rightharpoonup> bool) \<Rightarrow> App" where
  "alphaBetaApp ap =
     (newApp \<lparr>EnvVarName = ''HYDRA_OVERRIDES'', OverridesDir = ''$PROJECT_ROOT/conf/overrides'',
              ProjectEnvFile = ''.envrc''\<rparr> ''/proj'')
       \<lparr>heap := (\<lambda>_. emptyOverride)
          (0 := emptyOverride\<lparr>Name := ''alpha'', Type := ''+'', Block := ''log.level''\<rparr>,
           1 := emptyOverride\<lparr>Name := ''beta'', Type := ''='', Block := ''log.level''\<rparr>),
        nextAddr := 2, overrides := [0, 1], applied := ap\<rparr>"

text \<open>
  The default configuration, a world in which nothing exists and nothing fails, and an
  overrides directory with the folders \<open>broken\<close>, \<open>good\<close> and \<open>nometa\<close> and a plain
  file. \<open>demoYaml\<close> gives the parse of the two frontmatter texts the examples use.
\<close>

definition demoConfig :: Config where
  "demoConfig = \<lparr>EnvVarName = ''HYDRA_OVERRIDES'', OverridesDir = ''$PROJECT_ROOT/conf/overrides'',
                  ProjectEnvFile = ''.envrc''\<rparr>"

definition quietWorld :: World where
  "quietWorld =
     \<lparr>envrc = FileMissing, writeFails = False, direnvFails = False,
      ReadDir = (\<lambda>_. None), ReadFile = (\<lambda>_. None),
      MkdirAllFails = (\<lambda>_. False), RenameFails = (\<lambda>_ _. False), RemoveAllFails = (\<lambda>_. False),
      yamlUnmarshal = (\<lambda>_. None),
      homeDir = ''/home/u'', envPROJECT_ROOT = ''/proj'', workDir = ''/proj''\<rparr>"

definition demoDir :: string where
  "demoDir = ''/proj/conf/overrides''"

definition goodApply :: string where
  "goodApply = ''---'' @ [nl] @ ''type: +'' @ [nl] @ ''block: log.level'' @ [nl] @ ''---'' @ [nl]"

definition brokenApply :: string where
  "brokenApply = ''---'' @ [nl] @ ''type: [oops'' @ [nl] @ ''---'' @ [nl]"

definition demoYaml :: "string \<Rightarrow> Meta option" where
  "demoYaml doc =
     (if doc = [nl] @ ''type: +'' @ [nl] @ ''block: log.level'' @ [nl]
      then Some \<lparr>metaType = ''+'', metaBlock = ''log.level'', metaFile = [],
                 metaModulePath = [], metaModule = []\<rparr>
      else if doc = [nl] @ ''type: +'' @ [nl] @ ''block: log.level'' @ [nl]
                @ ''module_path: configs/logging'' @ [nl]
      then Some \<lparr>metaType = ''+'', metaBlock = ''log.level'', metaFile = [],
                 metaModulePath = ''configs/logging'', metaModule = []\<rparr>
      else None)"

definition demoWorld :: World where
  "demoWorld =
     quietWorld
       \<lparr>ReadDir := (\<lambda>_. None)
          (demoDir \<mapsto> [\<lparr>entName = ''broken'', entIsDir = True\<rparr>,
                       \<lparr>entName = ''good'', entIsDir = True\<rparr>,
                       \<lparr>entName = ''nometa'', entIsDir = True\<rparr>,
                       \<lparr>entName = ''notes.txt'', entIsDir = False\<rparr>]),
        ReadFile := (\<lambda>_. None)
          (''/proj/conf/overrides/broken/apply.md'' \<mapsto> brokenApply,
           ''/proj/conf/overrides/good/apply.md'' \<mapsto> goodApply,
           ''/proj/conf/overrides/good/override.yaml'' \<mapsto> ''level: debug'' @ [nl],
           ''/proj/conf/overrides/nometa/override.yaml'' \<mapsto> ''level: info'' @ [nl]),
        yamlUnmarshal := demoYaml\<rparr>"

definition demoApp :: App where
  "demoApp = snd (loadOverrides demoWorld (newApp demoConfig ''/proj''))"

text \<open>
  A state file that names an Override the registry does not have, and the world after
  \<open>apply.md\<close> of \<open>good\<close> was edited to carry a \<open>module_path\<close>.
\<close>

definition ghostFile :: string where
  "ghostFile = ''export HYDRA_OVERRIDES='' @ [dquote] @ ''Z2hvc3Q='' @ [dquote] @ [nl]"

definition ghostWorld :: World where
  "ghostWorld = demoWorld\<lparr>envrc := FileContent ghostFile\<rparr>"

definition ghostApp :: App where
  "ghostApp = snd (loadPersistedState ghostWorld demoApp)"

definition editedApply :: string where
  "editedApply = ''---'' @ [nl] @ ''type: +'' @ [nl] @ ''block: log.level'' @ [nl]
       @ ''module_path: configs/logging'' @ [nl] @ ''---'' @ [nl]"

definition editedWorld :: World where
  "editedWorld =
     demoWorld\<lparr>ReadFile := (ReadFile demoWorld)
       (''/proj/conf/overrides/good/apply.md'' \<mapsto> editedApply)\<rparr>"

definition renameFailWorld :: World where
  "renameFailWorld = demoWorld\<lparr>RenameFails := (\<lambda>_ _. True)\<rparr>"

definition removeFailWorld :: World where
  "removeFailWorld = demoWorld\<lparr>RemoveAllFails := (\<lambda>_. True)\<rparr>"

definition reloadedApp :: App where
  "reloadedApp = reloadOverride ''good'' demoApp editedWorld"

definition freshApp :: App where
  "freshApp = snd (loadOverrides editedWorld (newApp demoConfig ''/proj''))"

text \<open>
  A process run end to end: the overrides directory holds one folder, the registry is
  loaded, the Override is applied with \<open>toggleOverride\<close> (which saves the state file),
  and the process is started again on the saved world.
\<close>

definition oneFolderWorld :: "string \<Rightarrow> World" where
  "oneFolderWorld name =
     quietWorld
       \<lparr>ReadDir := (\<lambda>_. None)(demoDir \<mapsto> [\<lparr>entName = name, entIsDir = True\<rparr>]),
        ReadFile := (\<lambda>_. None)(demoDir @ ''/'' @ name @ ''/apply.md'' \<mapsto> goodApply),
        yamlUnmarshal := demoYaml\<rparr>"

definition loadedOne :: "string \<Rightarrow> App" where
  "loadedOne name = snd (loadOverrides (oneFolderWorld name) (newApp demoConfig ''/proj''))"

definition appliedOne :: "string \<Rightarrow> App" where
  "appliedOne name = fst (toggleOverride (loadedOne name) (oneFolderWorld name))"

definition savedOne :: "string \<Rightarrow> World" where
  "savedOne name = snd (toggleOverride (loadedOne name) (oneFolderWorld name))"

definition restartedOne :: "string \<Rightarrow> App" where
  "restartedOne name = snd (loadPersistedState (savedOne name) (loadedOne name))"

definition bothApplied :: App where
  "bothApplied = alphaBetaApp [''alpha'' \<mapsto> True, ''beta'' \<mapsto> True]"

definition withOrphan :: App where
  "withOrphan = alphaBetaApp [''alpha'' \<mapsto> True, ''ghost'' \<mapsto> True]"

text \<open>
  Three state files: one with two unmanaged and two managed lines, one with a line
  ended by carriage return and newline, and one whose first line has
  \<open>MaxScanTokenSize\<close> bytes.
\<close>

definition demoEnvrc :: string where
  "demoEnvrc =
     ''PATH_add bin'' @ [nl]
     @ ''export HYDRA_OVERRIDES='' @ [dquote] @ ''b2xk'' @ [dquote] @ [nl]
     @ ''export HYDRA_OVERRIDE_STR='' @ [dquote] @ ''old'' @ [dquote] @ [nl]
     @ ''layout python'' @ [nl]"

definition crlfEnvrc :: string where
  "crlfEnvrc = ''keep'' @ [cr, nl]"

definition longEnvrc :: string where
  "longEnvrc = replicate 65536 (CHR ''a'') @ [nl] @ ''keep'' @ [nl]"

section \<open>Lemmas\<close>

subsection \<open>The base64 codec decodes what it encodes\<close>

lemma sextets:
  fixes v :: nat
  assumes "v < 16777216"
  shows "(v div 262144 mod 64) * 262144 + (v div 4096 mod 64) * 4096 + (v div 64 mod 64) * 64 + v mod 64 = v"
proof -
  define q1 r0 where "q1 = v div 64" and "r0 = v mod 64"
  define q2 r1 where "q2 = q1 div 64" and "r1 = q1 mod 64"
  define q3 r2 where "q3 = q2 div 64" and "r2 = q2 mod 64"
  have e1: "v = q1 * 64 + r0" by (simp add: q1_def r0_def)
  have e2: "q1 = q2 * 64 + r1" by (simp add: q2_def r1_def)
  have e3: "q2 = q3 * 64 + r2" by (simp add: q3_def r2_def)
  have a: "v div 4096 = q2" "v div 262144 = q3"
    by (simp_all add: q1_def q2_def q3_def div_mult2_eq [symmetric])
  have "q3 < 64"
    using assms e1 e2 e3 by linarith
  then have b: "q3 mod 64 = q3" by simp
  have "q3 * 262144 + r2 * 4096 + r1 * 64 + r0 = v"
    using e1 e2 e3 by linarith
  then show ?thesis
    by (simp add: a b q1_def [symmetric] r0_def [symmetric] r1_def [symmetric] r2_def [symmetric])
qed

lemma encodeStd_length: "length encodeStd = 64"
  by (simp add: encodeStd_def)

lemma encodeStd_distinct: "distinct encodeStd"
  by (simp add: encodeStd_def)

lemma indexOf_nth: "distinct xs \<Longrightarrow> n < length xs \<Longrightarrow> indexOf (xs ! n) xs = Some n"
proof (induction xs arbitrary: n)
  case Nil
  then show ?case by simp
next
  case (Cons x xs)
  then show ?case by (cases n) auto
qed

lemma decode_encodeChar: "decodeChar (encodeChar v) = Some (v mod 64)"
  by (simp add: decodeChar_def encodeChar_def indexOf_nth encodeStd_distinct encodeStd_length)

lemma encodeChar_in: "encodeChar v \<in> set encodeStd"
  by (simp add: encodeChar_def encodeStd_length)

lemma encodeStd_excludes:
  "padChar \<notin> set encodeStd" "nl \<notin> set encodeStd" "cr \<notin> set encodeStd"
  "dquote \<notin> set encodeStd" "squote \<notin> set encodeStd"
  by (simp_all add: encodeStd_def padChar_def nl_def cr_def dquote_def squote_def)

lemma encodeChar_neq [simp]:
  "encodeChar v \<noteq> padChar" "encodeChar v \<noteq> nl" "encodeChar v \<noteq> cr"
  "encodeChar v \<noteq> dquote" "encodeChar v \<noteq> squote"
  using encodeChar_in [of v] encodeStd_excludes by auto

lemma of_char_less: "of_char (c :: char) < (256 :: nat)"
  by (metis of_char_mod_256 mod_less_divisor zero_less_numeral)

lemma bytes3_regroup:
  fixes A B C :: nat
  shows "A * 65536 + B * 256 + C = (A * 256 + B) * 256 + C"
  by simp

lemma bytes3_hi:
  fixes A B C :: nat
  assumes "A < 256" "B < 256" "C < 256"
  shows "(A * 65536 + B * 256 + C) div 65536 = A"
  using assms by simp

lemma bytes3_bound:
  fixes A B C :: nat
  assumes "A < 256" "B < 256" "C < 256"
  shows "A * 65536 + B * 256 + C < 16777216"
  using assms by simp

lemma bytes3_lo:
  fixes A B C :: nat
  assumes "C < 256"
  shows "(A * 65536 + B * 256 + C) mod 256 = C"
proof -
  have "((A * 256 + B) * 256 + C) mod 256 = C mod 256"
    by (rule mod_mult_self3)
  with assms show ?thesis
    by (simp only: bytes3_regroup mod_less)
qed

lemma bytes3_mid:
  fixes A B C :: nat
  assumes "B < 256" "C < 256"
  shows "(A * 65536 + B * 256 + C) div 256 mod 256 = B"
proof -
  have "((A * 256 + B) * 256 + C) div 256 = (A * 256 + B) + C div 256"
    by (rule div_mult_self3) simp
  with assms have "(A * 65536 + B * 256 + C) div 256 = A * 256 + B"
    by (simp only: bytes3_regroup div_less add_0_right)
  moreover have "(A * 256 + B) mod 256 = B mod 256"
    by (rule mod_mult_self3)
  ultimately show ?thesis
    using assms by (simp only: mod_less)
qed

lemma one_byte:
  fixes A :: nat
  assumes "A < 256"
  shows "(A * 65536) mod 64 = 0" "(A * 65536) div 64 mod 64 = 0" "(A * 65536) div 65536 = A"
   "A * 65536 < 16777216"
  using assms by simp_all

lemma two_bytes:
  fixes A B :: nat
  assumes "A < 256" "B < 256"
  shows "(A * 65536 + B * 256) mod 64 = 0" "(A * 65536 + B * 256) div 65536 = A"
   "(A * 65536 + B * 256) div 256 mod 256 = B" "A * 65536 + B * 256 < 16777216"
  using assms by simp_all

lemma quantum4:
  assumes "v < 16777216"
  shows "decodeQuanta (encodeChar (v div 262144) # encodeChar (v div 4096) # encodeChar (v div 64)
            # encodeChar v # rest)
         = map_option (\<lambda>bs. [char_of (v div 65536), char_of (v div 256), char_of v] @ bs)
             (decodeQuanta rest)"
  by (simp only: decodeQuanta.simps decode_encodeChar prod.case option.case encodeChar_neq
      if_False Let_def sextets [OF assms])

lemma quantum3:
  assumes "v < 16777216" "v mod 64 = 0"
  shows "decodeQuanta [encodeChar (v div 262144), encodeChar (v div 4096), encodeChar (v div 64), padChar]
         = Some [char_of (v div 65536), char_of (v div 256)]"
proof -
  from sextets [OF assms(1)]
  have e: "v div 262144 mod 64 * 262144 + v div 4096 mod 64 * 4096 + v div 64 mod 64 * 64 = v"
    by (simp only: assms(2) add_0_right)
  show ?thesis
    by (simp only: decodeQuanta.simps decode_encodeChar prod.case option.case encodeChar_neq
      if_False if_True simp_thms Let_def e)
qed

lemma quantum2:
  assumes "v < 16777216" "v mod 64 = 0" "v div 64 mod 64 = 0"
  shows "decodeQuanta [encodeChar (v div 262144), encodeChar (v div 4096), padChar, padChar]
         = Some [char_of (v div 65536)]"
proof -
  from sextets [OF assms(1)]
  have e: "v div 262144 mod 64 * 262144 + v div 4096 mod 64 * 4096 = v"
    by (simp only: assms(2,3) add_0_right mult_zero_left)
  show ?thesis
    by (simp only: decodeQuanta.simps decode_encodeChar prod.case option.case encodeChar_neq
      if_False if_True simp_thms Let_def e)
qed

lemma char_of_mod: "char_of (n :: nat) = char_of (n mod 256)"
  by simp

lemma decodeQuanta_encode: "decodeQuanta (base64_EncodeToString bs) = Some bs"
proof (induction bs rule: base64_EncodeToString.induct)
  case 1
  show ?case by simp
next
  case (2 a)
  define A :: nat where "A = of_char a"
  have A: "A < 256" by (simp add: A_def of_char_less)
  have "decodeQuanta (base64_EncodeToString [a]) = Some [char_of ((A * 65536) div 65536)]"
    by (simp only: base64_EncodeToString.simps Let_def A_def [symmetric]
        quantum2 [OF one_byte(4,1,2) [OF A]])
  also have "\<dots> = Some [a]"
    by (simp only: one_byte(3) [OF A]) (simp add: A_def)
  finally show ?case .
next
  case (3 a b)
  define A :: nat where "A = of_char a"
  define B :: nat where "B = of_char b"
  have A: "A < 256" and B: "B < 256" by (simp_all add: A_def B_def of_char_less)
  have "decodeQuanta (base64_EncodeToString [a, b])
        = Some [char_of ((A * 65536 + B * 256) div 65536), char_of ((A * 65536 + B * 256) div 256)]"
    by (simp only: base64_EncodeToString.simps Let_def A_def [symmetric] B_def [symmetric]
        quantum3 [OF two_bytes(4,1) [OF A B]])
  also have "char_of ((A * 65536 + B * 256) div 256) = char_of ((A * 65536 + B * 256) div 256 mod 256)"
    by (rule char_of_mod)
  also have "Some [char_of ((A * 65536 + B * 256) div 65536), char_of ((A * 65536 + B * 256) div 256 mod 256)]
       = Some [a, b]"
    by (simp only: two_bytes(2,3) [OF A B]) (simp add: A_def B_def)
  finally show ?case .
next
  case (4 a b c rest)
  define A :: nat where "A = of_char a"
  define B :: nat where "B = of_char b"
  define C :: nat where "C = of_char c"
  have A: "A < 256" and B: "B < 256" and C: "C < 256"
    by (simp_all add: A_def B_def C_def of_char_less)
  define v where "v = A * 65536 + B * 256 + C"
  have v: "v < 16777216" "v div 65536 = A" "v div 256 mod 256 = B" "v mod 256 = C"
    unfolding v_def
    by (rule bytes3_bound [OF A B C] bytes3_hi [OF A B C] bytes3_mid [OF B C] bytes3_lo [OF C])+
  have "base64_EncodeToString (a # b # c # rest)
        = encodeChar (v div 262144) # encodeChar (v div 4096) # encodeChar (v div 64)
            # encodeChar v # base64_EncodeToString rest"
    by (simp only: base64_EncodeToString.simps Let_def A_def [symmetric] B_def [symmetric]
        C_def [symmetric] v_def [symmetric] append.simps)
  then have "decodeQuanta (base64_EncodeToString (a # b # c # rest))
        = Some ([char_of (v div 65536), char_of (v div 256), char_of v] @ rest)"
    by (simp only: quantum4 [OF v(1)] "4.IH" option.map)
  also have "char_of (v div 256) = char_of (v div 256 mod 256)"
    by (rule char_of_mod)
  also have "char_of v = char_of (v mod 256)"
    by (rule char_of_mod)
  also have "Some ([char_of (v div 65536), char_of (v div 256 mod 256), char_of (v mod 256)] @ rest)
       = Some (a # b # c # rest)"
    by (simp only: v(2,3,4)) (simp add: A_def B_def C_def)
  finally show ?case .
qed

lemma encode_chars: "set (base64_EncodeToString bs) \<subseteq> insert padChar (set encodeStd)"
  by (induction bs rule: base64_EncodeToString.induct) (auto simp: Let_def encodeChar_in)

lemma encode_excludes:
  "nl \<notin> set (base64_EncodeToString bs)" "cr \<notin> set (base64_EncodeToString bs)"
  "dquote \<notin> set (base64_EncodeToString bs)" "squote \<notin> set (base64_EncodeToString bs)"
  using encode_chars [of bs] encodeStd_excludes
  by (auto simp: padChar_def nl_def cr_def dquote_def squote_def)

lemma base64_roundtrip: "base64_DecodeString (base64_EncodeToString bs) = Some bs"
proof -
  have "filter (\<lambda>c. c \<noteq> cr \<and> c \<noteq> nl) (base64_EncodeToString bs) = base64_EncodeToString bs"
    using encode_excludes(1,2) [of bs] by (auto simp: filter_id_conv)
  then show ?thesis
    by (simp add: base64_DecodeString_def decodeQuanta_encode)
qed

lemma encode_empty_iff: "base64_EncodeToString bs = [] \<longleftrightarrow> bs = []"
  by (induction bs rule: base64_EncodeToString.induct) (simp_all add: Let_def)

lemma encode_length_le: "length (base64_EncodeToString bs) \<le> 4 * length bs + 4"
  by (induction bs rule: base64_EncodeToString.induct) (simp_all add: Let_def)

subsection \<open>Strings and the line scanner\<close>

lemma strings_SplitN2_nonempty: "strings_SplitN2 s sep \<noteq> []"
proof -
  have "splitN2Acc sep cur s \<noteq> []" for cur
    by (induction s arbitrary: cur) simp_all
  then show ?thesis by (simp add: strings_SplitN2_def)
qed

lemma dropCR_length: "length (dropCR l) \<le> length l"
  by (simp add: dropCR_def)

lemma dropCR_set: "set (dropCR l) \<subseteq> set l"
  by (auto simp: dropCR_def dest: in_set_butlastD)

lemma dropCR_prefix: "strings_HasPrefix (dropCR l) p \<Longrightarrow> strings_HasPrefix l p"
proof -
  assume h: "strings_HasPrefix (dropCR l) p"
  show ?thesis
  proof (cases "l \<noteq> [] \<and> last l = cr")
    case True
    then have "l = butlast l @ [cr]" by (metis append_butlast_last_id)
    moreover from True h have "take (length p) (butlast l) = p"
      by (simp add: dropCR_def strings_HasPrefix_def)
    ultimately show ?thesis
      by (metis strings_HasPrefix_def append_eq_conv_conj append.assoc append_take_drop_id)
  next
    case False
    with h show ?thesis by (auto simp: dropCR_def)
  qed
qed

lemma scanLinesAcc_line:
  assumes "nl \<notin> set l"
  shows "scanLinesAcc cur (l @ nl # rest) =
     (if MaxScanTokenSize \<le> length (cur @ l) then ([], True)
      else (dropCR (cur @ l) # fst (scanLinesAcc [] rest), snd (scanLinesAcc [] rest)))"
  using assms by (induction l arbitrary: cur) (auto simp: case_prod_beta)

lemma scanLines_lines:
  assumes "\<forall>l \<in> set ls. nl \<notin> set l \<and> length l < MaxScanTokenSize"
  shows "scanLines (concat (map (\<lambda>l. l @ [nl]) ls) @ rest)
     = (map dropCR ls @ fst (scanLines rest), snd (scanLines rest))"
  using assms
  by (induction ls) (simp_all add: scanLines_def scanLinesAcc_line)

lemma scanLinesAcc_tokens:
  assumes "nl \<notin> set cur" and "t \<in> set (fst (scanLinesAcc cur data))"
  shows "nl \<notin> set t \<and> length t < MaxScanTokenSize"
  using assms
proof (induction data arbitrary: cur)
  case Nil
  then show ?case
    using dropCR_set [of cur] dropCR_length [of cur]
    by (auto split: if_splits)
next
  case (Cons c cs)
  show ?case
  proof (cases "c = nl")
    case True
    with Cons.prems Cons.IH [of "[]"] show ?thesis
      using dropCR_set [of cur] dropCR_length [of cur]
      by (auto simp: case_prod_beta split: if_splits)
  next
    case False
    with Cons.prems Cons.IH [of "cur @ [c]"] show ?thesis
      by auto
  qed
qed

lemma scanLines_tokens:
  "t \<in> set (fst (scanLines data)) \<Longrightarrow> nl \<notin> set t \<and> length t < MaxScanTokenSize"
  unfolding scanLines_def by (rule scanLinesAcc_tokens) simp_all

lemma strings_Join_lines: "ls \<noteq> [] \<Longrightarrow> strings_Join ls [nl] @ [nl] = concat (map (\<lambda>l. l @ [nl]) ls)"
  by (induction ls "[nl]" rule: strings_Join.induct) simp_all

lemma strings_Trim_quoted:
  assumes "enc \<noteq> []" "dquote \<notin> set enc" "squote \<notin> set enc"
  shows "strings_Trim ([dquote] @ enc @ [dquote]) [dquote, squote] = enc"
proof -
  from assms obtain x xs where e: "enc = x # xs" by (cases enc) auto
  with assms have x: "x \<noteq> dquote" "x \<noteq> squote" by auto
  from assms obtain ys y where r: "rev enc = y # ys" by (cases "rev enc") auto
  then have "y \<in> set enc" by (metis list.set_intros(1) set_rev)
  with assms have y: "y \<noteq> dquote" "y \<noteq> squote" by auto
  have "dropWhile (\<lambda>c. c \<in> set [dquote, squote]) ([dquote] @ enc @ [dquote]) = enc @ [dquote]"
    using x by (simp add: e)
  moreover have "dropWhile (\<lambda>c. c \<in> set [dquote, squote]) (rev (enc @ [dquote])) = rev enc"
    using y by (simp add: r)
  ultimately show ?thesis
    by (simp add: strings_Trim_def)
qed

lemma hasPrefix_single: "strings_HasPrefix (c # cs) [d] \<longleftrightarrow> c = d"
  by (simp add: strings_HasPrefix_def)

lemma splitAcc_last: "c \<notin> set x \<Longrightarrow> splitAcc [c] cur x = [cur @ x]"
  by (induction x arbitrary: cur) (auto simp: hasPrefix_single)

lemma splitAcc_piece:
  "c \<notin> set x \<Longrightarrow> splitAcc [c] cur (x @ c # rest) = (cur @ x) # splitAcc [c] [] rest"
  by (induction x arbitrary: cur) (auto simp: hasPrefix_single)

lemma split_join:
  assumes "names \<noteq> []" "\<forall>n \<in> set names. c \<notin> set n"
  shows "strings_Split (strings_Join names [c]) [c] = names"
  using assms
proof (induction names "[c]" rule: strings_Join.induct)
  case 1
  then show ?case by simp
next
  case (2 x)
  then show ?case by (simp add: strings_Split_def splitAcc_last)
next
  case (3 x y ys)
  then show ?case
    by (simp add: strings_Split_def splitAcc_piece)
qed

lemma join_nonempty: "names \<noteq> [] \<Longrightarrow> \<forall>n \<in> set names. n \<noteq> [] \<Longrightarrow> strings_Join names sep \<noteq> []"
  by (induction names sep rule: strings_Join.induct) simp_all

lemma unique_sep:
  "c \<notin> set ys \<Longrightarrow> c \<notin> set zs \<Longrightarrow> xs @ c # r = ys @ c # zs \<Longrightarrow> r = zs"
proof (induction ys arbitrary: xs)
  case Nil
  then show ?case by (cases xs) auto
next
  case (Cons y ys)
  then show ?case by (cases xs) auto
qed

lemma hasPrefix_append: "strings_HasPrefix (p @ r) p"
  by (simp add: strings_HasPrefix_def)

lemma hasPrefix_split: "strings_HasPrefix s p \<Longrightarrow> s = p @ drop (length p) s"
  by (metis strings_HasPrefix_def append_take_drop_id)

lemma strings_TrimSpace_empty: "strings_TrimSpace [] = []"
  by (simp add: strings_TrimSpace_def trimLeftEncodings.simps spaceEncodings_def strings_HasPrefix_def)

lemma scanLinesAcc_textLines:
  assumes "\<forall>l \<in> set (textLinesAcc cur data). length l < MaxScanTokenSize"
  shows "scanLinesAcc cur data = (map dropCR (textLinesAcc cur data), False)"
  using assms
  by (induction data arbitrary: cur) (auto simp: case_prod_beta split: if_splits)

lemma scanLines_textLines:
  assumes "\<forall>l \<in> set (textLines data). length l < MaxScanTokenSize"
  shows "scanLines data = (map dropCR (textLines data), False)"
  using assms unfolding scanLines_def textLines_def by (rule scanLinesAcc_textLines)

lemma textLinesAcc_line:
  "nl \<notin> set l \<Longrightarrow> textLinesAcc cur (l @ nl # rest) = (cur @ l) # textLinesAcc [] rest"
  by (induction l arbitrary: cur) auto

subsection \<open>The loops of the program and the persisted state\<close>

lemma buildParts_eq:
  "buildParts h ap as parts =
     parts @ map (\<lambda>a. fragment (h a)) (filter (\<lambda>a. isApplied ap (Name (h a))) as)"
  by (induction as arbitrary: parts) (simp_all add: fragment_def Let_def)

lemma filter_applied_empty:
  assumes "\<forall>n. \<not> isApplied ap n"
  shows "filter (\<lambda>a. isApplied ap (Name (h a))) as = []"
  using assms by (induction as) simp_all

lemma keepLines_eq:
  "keepLines pfx ls acc =
     acc @ filter (\<lambda>l. \<not> strings_HasPrefix l pfx
                        \<and> \<not> strings_HasPrefix l ''export HYDRA_OVERRIDE_STR='') ls"
  by (induction ls arbitrary: acc) simp_all

lemma collectApplied_eq:
  "collectApplied h ap as acc = acc @ filter (isApplied ap) (map (\<lambda>a. Name (h a)) as)"
  by (induction as arbitrary: acc) simp_all

lemma loadLines_skip:
  assumes "\<forall>l \<in> set ls. \<not> strings_HasPrefix l pfx"
  shows "loadLines pfx (ls @ rest) e ap = loadLines pfx rest e ap"
  using assms by (induction ls) simp_all

lemma addNames_valid:
  assumes "\<forall>n \<in> set ns. strings_TrimSpace n = n \<and> n \<noteq> []"
  shows "addNames ap ns = (\<lambda>k. if k \<in> set ns then Some True else ap k)"
  using assms by (induction ns arbitrary: ap) (auto simp: Let_def fun_eq_iff)

lemma emptyStrLine_value:
  assumes "strings_HasPrefix (''export HYDRA_OVERRIDE_STR='' @ [dquote, dquote]) (''export '' @ env @ ''='')"
  shows "strings_Trim (strings_TrimPrefix (''export HYDRA_OVERRIDE_STR='' @ [dquote, dquote])
            (''export '' @ env @ ''='')) [dquote, squote] = []"
proof -
  let ?S = "''export HYDRA_OVERRIDE_STR='' @ [dquote, dquote]"
  let ?p = "''export '' @ env @ ''=''"
  define r where "r = drop (length ?p) ?S"
  from hasPrefix_split [OF assms] have "?S = ?p @ r"
    by (simp add: r_def)
  then have "(''export '' @ env) @ CHR ''='' # r = ''export HYDRA_OVERRIDE_STR'' @ CHR ''='' # [dquote, dquote]"
    by simp
  then have "r = [dquote, dquote]"
    by (rule unique_sep [rotated 2]) (simp_all add: dquote_def)
  moreover have "strings_TrimPrefix ?S ?p = r"
    using assms by (simp only: strings_TrimPrefix_def r_def if_True)
  moreover have "strings_Trim [dquote, dquote] [dquote, squote] = []"
    by (simp add: strings_Trim_def)
  ultimately show ?thesis
    by (simp only:)
qed

lemma savedLines_eq: "savedLines app f = keptLines app f @ managedLines app"
  by (cases f)
    (simp_all add: savedLines_def keptLines_def managedLines_def appliedLine_def overrideStrLine_def
      appliedNamesOf_def managedPrefix_def isManaged_def registryNames_def
      keepLines_eq collectApplied_eq Let_def)

lemma save_content:
  assumes "\<not> writeFails w"
  shows "envrc (snd (savePersistedState app w))
     = FileContent (concat (map (\<lambda>l. l @ [nl]) (keptLines app (envrc w) @ managedLines app)))"
proof -
  have "savedLines app (envrc w) \<noteq> []"
    by (simp add: savedLines_eq managedLines_def)
  then show ?thesis
    using assms
    by (simp add: savePersistedState_def Let_def strings_Join_lines savedLines_eq)
qed

lemma keptLines_tokens:
  assumes "k \<in> set (keptLines app f)"
  shows "nl \<notin> set k \<and> length k < MaxScanTokenSize \<and> \<not> strings_HasPrefix k (managedPrefix app)"
  using assms scanLines_tokens
  by (cases f) (auto simp: keptLines_def isManaged_def)

lemma buildOverrideString_none:
  assumes "appliedNamesOf app = []"
  shows "buildOverrideString app = []"
proof -
  from assms have "filter (\<lambda>a. isApplied (applied app) (Name (heap app a))) (overrides app) = []"
    by (simp add: appliedNamesOf_def registryNames_def filter_map comp_def)
  then show ?thesis
    by (simp add: buildOverrideString_def buildParts_eq)
qed

lemma overrideStrLine_none:
  assumes "appliedNamesOf app = []"
  shows "overrideStrLine app = ''export HYDRA_OVERRIDE_STR='' @ [dquote, dquote]"
  by (simp add: overrideStrLine_def buildOverrideString_none [OF assms] strings_ReplaceAll_def
      strings_Split_def)

lemma loadLines_hit_decoded:
  "loadLines pfx ((pfx @ [dquote] @ base64_EncodeToString joined @ [dquote]) # rest) e ap
     = (None, addNames ap (strings_Split joined '',''))"
proof (cases "joined = []")
  case True
  have "strings_Trim [dquote, dquote] [dquote, squote] = []"
    by (simp add: strings_Trim_def)
  then show ?thesis
    by (simp add: True hasPrefix_append strings_TrimPrefix_def strings_Split_def
        strings_TrimSpace_empty)
next
  case False
  let ?enc = "base64_EncodeToString joined"
  have ne: "?enc \<noteq> []"
    using False by (simp add: encode_empty_iff)
  have t: "strings_Trim ([dquote] @ ?enc @ [dquote]) [dquote, squote] = ?enc"
    by (rule strings_Trim_quoted [OF ne encode_excludes(3,4)])
  show ?thesis
    using ne
    by (simp add: hasPrefix_append strings_TrimPrefix_def t [simplified] base64_roundtrip)
qed

lemma save_load_decoded:
  assumes w: "\<not> writeFails w"
    and env: "nl \<notin> set (EnvVarName (config app))"
    and len: "length (appliedLine app) < MaxScanTokenSize"
    and cfg: "config app0 = config app"
  shows "loadPersistedState (snd (savePersistedState app w)) app0
     = (None, app0\<lparr>applied :=
          (if appliedNamesOf app = [] then applied app0
           else addNames (applied app0)
                  (strings_Split (strings_Join (appliedNamesOf app) '','') '',''))\<rparr>)"
proof -
  let ?K = "keptLines app (envrc w)"
  let ?pfx = "managedPrefix app"
  let ?res = "if appliedNamesOf app = [] then applied app0
           else addNames (applied app0)
                  (strings_Split (strings_Join (appliedNamesOf app) '','') '','')"
  have pfx0: "''export '' @ EnvVarName (config app0) @ ''='' = ?pfx"
    by (simp add: managedPrefix_def cfg)
  have K: "\<forall>k \<in> set ?K. nl \<notin> set k \<and> length k < MaxScanTokenSize"
    using keptLines_tokens by blast
  have Kp: "\<forall>t \<in> set (map dropCR ?K). \<not> strings_HasPrefix t ?pfx"
    using keptLines_tokens dropCR_prefix by (metis (no_types, lifting) imageE list.set_map)
  have "loadLines ?pfx (fst (scanLines (concat (map (\<lambda>l. l @ [nl]) (?K @ managedLines app)))))
          (snd (scanLines (concat (map (\<lambda>l. l @ [nl]) (?K @ managedLines app)))))
          (applied app0)
        = (None, ?res)"
  proof (cases "appliedNamesOf app = []")
    case True
    let ?S = "''export HYDRA_OVERRIDE_STR='' @ [dquote, dquote]"
    have S: "nl \<notin> set ?S" "length ?S < MaxScanTokenSize" "dropCR ?S = ?S"
      by (simp_all add: nl_def dquote_def MaxScanTokenSize_def dropCR_def cr_def)
    have m: "managedLines app = [?S]"
      by (simp add: managedLines_def True overrideStrLine_none)
    have "scanLines (concat (map (\<lambda>l. l @ [nl]) (?K @ [?S])) @ [])
            = (map dropCR (?K @ [?S]) @ fst (scanLines []), snd (scanLines []))"
      by (rule scanLines_lines) (use K S in auto)
    then have sc: "scanLines (concat (map (\<lambda>l. l @ [nl]) (?K @ managedLines app)))
            = (map dropCR ?K @ [?S], False)"
      by (simp add: m S(3) scanLines_def del: append.simps)
    have "loadLines ?pfx [?S] False (applied app0) = (None, applied app0)"
      using emptyStrLine_value [of "EnvVarName (config app)"]
      by (simp add: managedPrefix_def del: append.simps)
    then show ?thesis
      by (simp only: sc fst_conv snd_conv loadLines_skip [OF Kp] True if_True simp_thms)
  next
    case False
    let ?A = "appliedLine app"
    have A: "nl \<notin> set ?A" "dropCR ?A = ?A"
      using env encode_excludes(1)
      by (simp_all add: appliedLine_def managedPrefix_def nl_def dquote_def dropCR_def cr_def)
    have m: "managedLines app = [?A, overrideStrLine app]"
      by (simp add: managedLines_def False)
    have "scanLines (concat (map (\<lambda>l. l @ [nl]) (?K @ [?A])) @ (overrideStrLine app @ [nl]))
            = (map dropCR (?K @ [?A]) @ fst (scanLines (overrideStrLine app @ [nl])),
               snd (scanLines (overrideStrLine app @ [nl])))"
      by (rule scanLines_lines) (use K A len in auto)
    then have sc: "scanLines (concat (map (\<lambda>l. l @ [nl]) (?K @ managedLines app)))
            = (map dropCR ?K @ ?A # fst (scanLines (overrideStrLine app @ [nl])),
               snd (scanLines (overrideStrLine app @ [nl])))"
      by (simp add: m A(2))
    have hit: "loadLines ?pfx (?A # rest) e (applied app0)
            = (None, addNames (applied app0)
                 (strings_Split (strings_Join (appliedNamesOf app) '','') '',''))" for rest e
      unfolding appliedLine_def by (rule loadLines_hit_decoded)
    show ?thesis
      by (simp only: sc fst_conv snd_conv loadLines_skip [OF Kp] hit False if_False simp_thms)
  qed
  then show ?thesis
    unfolding loadPersistedState_def save_content [OF w] pfx0
    by (simp only: FileState.case case_prod_beta fst_conv snd_conv)
qed

lemma save_load_valid:
  assumes w: "\<not> writeFails w"
    and env: "nl \<notin> set (EnvVarName (config app))"
    and names: "\<forall>n \<in> set (appliedNamesOf app). CHR '','' \<notin> set n"
    and len: "length (appliedLine app) < MaxScanTokenSize"
    and cfg: "config app0 = config app"
  shows "loadPersistedState (snd (savePersistedState app w)) app0
     = (None, app0\<lparr>applied := addNames (applied app0) (appliedNamesOf app)\<rparr>)"
proof (cases "appliedNamesOf app = []")
  case True
  with save_load_decoded [OF w env len cfg] show ?thesis by simp
next
  case False
  with names have "strings_Split (strings_Join (appliedNamesOf app) '','') '','' = appliedNamesOf app"
    by (intro split_join) auto
  with False save_load_decoded [OF w env len cfg] show ?thesis by simp
qed

lemma managedLines_managed: "l \<in> set (managedLines app) \<Longrightarrow> isManaged app l"
proof -
  have "isManaged app (appliedLine app)"
    unfolding isManaged_def appliedLine_def by (simp only: hasPrefix_append simp_thms)
  moreover have "isManaged app (overrideStrLine app)"
    unfolding isManaged_def overrideStrLine_def by (simp only: hasPrefix_append simp_thms)
  ultimately show "l \<in> set (managedLines app) \<Longrightarrow> isManaged app l"
    by (auto simp: managedLines_def split: if_splits)
qed

lemma appliedNamesOf_set: "set (appliedNamesOf app) = appliedSet app \<inter> set (registryNames app)"
  by (auto simp: appliedNamesOf_def appliedSet_def)

lemma appliedSet_addNames:
  assumes "\<forall>n \<in> set ns. strings_TrimSpace n = n \<and> n \<noteq> []"
  shows "appliedSet (app\<lparr>applied := addNames Map.empty ns\<rparr>) = set ns"
  by (auto simp: appliedSet_def isApplied_def addNames_valid [OF assms] split: if_splits)

lemma savePersistedState_refreshAll: "savePersistedState (refreshAll app) w = savePersistedState app w"
  by (simp add: savePersistedState_def savedLines_def buildOverrideString_def refreshAll_def Let_def
      cong: FileState.case_cong)

lemma savePersistedState_world:
  "snd (savePersistedState app w) = w\<lparr>envrc := envrc (snd (savePersistedState app w))\<rparr>"
  by (simp add: savePersistedState_def Let_def)

lemma appliedLine_short:
  assumes "length (EnvVarName (config app)) < 1000"
    and "length (strings_Join (appliedNamesOf app) '','') < 1000"
  shows "length (appliedLine app) < MaxScanTokenSize"
  using assms encode_length_le [of "strings_Join (appliedNamesOf app) '',''"]
  by (simp add: appliedLine_def managedPrefix_def MaxScanTokenSize_def)

subsection \<open>The registry and its operations\<close>

lemma loadEntries_objects:
  "allocated app \<Longrightarrow>
   map (heap (loadEntries w dir entries app)) (overrides (loadEntries w dir entries app))
     = map (heap app) (overrides app) @ List.map_filter (parseEntry w dir) entries
   \<and> allocated (loadEntries w dir entries app)"
proof (induction entries arbitrary: app)
  case Nil
  then show ?case by (simp add: map_filter_simps)
next
  case (Cons entry rest)
  show ?case
  proof (cases "parseEntry w dir entry")
    case None
    then have "loadEntries w dir (entry # rest) app = loadEntries w dir rest app"
      by (auto simp: parseEntry_def Let_def split: option.splits if_splits)
    with None Cons show ?thesis by (simp add: map_filter_simps)
  next
    case (Some ov)
    define app1 where "app1 = app\<lparr>heap := (heap app)(nextAddr app := ov), nextAddr := Suc (nextAddr app),
                          overrides := overrides app @ [nextAddr app]\<rparr>"
    from Some have step: "loadEntries w dir (entry # rest) app = loadEntries w dir rest app1"
      by (auto simp: parseEntry_def Let_def app1_def split: option.splits if_splits)
    from Cons.prems have a1: "allocated app1"
      by (auto simp: allocated_def app1_def)
    from Cons.prems have m1: "map (heap app1) (overrides app1) = map (heap app) (overrides app) @ [ov]"
      by (auto simp: allocated_def app1_def)
    from Cons.IH [OF a1] step m1 Some show ?thesis
      by (simp add: map_filter_simps)
  qed
qed

lemma map_insort_key:
  "map f (insort_key (\<lambda>a. k (f a)) x xs) = insort_key k (f x) (map f xs)"
  by (induction xs) simp_all

lemma map_sort_key: "map f (sort_key (\<lambda>a. k (f a)) xs) = sort_key k (map f xs)"
  by (induction xs) (simp_all add: map_insort_key)

lemma registryNames_sortByName:
  "map (\<lambda>a. Name (h a)) (sortByName h as) = sort (map (\<lambda>a. Name (h a)) as)"
  unfolding sortByName_def by (induction as) (simp_all add: map_insort_key [where k="\<lambda>x. x"])

lemma loadOverrides_error:
  "fst (loadOverrides w app) \<noteq> None \<longleftrightarrow> ReadDir w (expandPath w (OverridesDir (config app))) = None"
  by (simp add: loadOverrides_def Let_def split: option.splits)

lemma loadOverrides_objects:
  assumes "allocated app" and "ReadDir w (expandPath w (OverridesDir (config app))) = Some entries"
  shows "map (heap (snd (loadOverrides w app))) (overrides (snd (loadOverrides w app)))
     = sort_key Name (map (heap app) (overrides app) @ List.map_filter (parseEntry w (expandPath w (OverridesDir (config app)))) entries)"
  using assms loadEntries_objects [of app w "expandPath w (OverridesDir (config app))" entries]
  by (simp add: loadOverrides_def Let_def sortByName_def map_sort_key)

lemma parseEntry_Some:
  assumes "parseEntry w dir entry = Some ov"
  shows "Name ov = entName entry \<and> entIsDir entry
       \<and> ReadFile w (filepath_Join (filepath_Join dir (entName entry)) ''apply.md'') = Some (ApplyInfo ov)"
  using assms
  by (auto simp: parseEntry_def Let_def emptyOverride_def split: if_splits option.splits list.splits)

lemma parseEntry_unparsed:
  assumes "entIsDir entry"
    and "ReadFile w (filepath_Join (filepath_Join dir (entName entry)) ''apply.md'') = Some content"
    and "yamlUnmarshal w (hd (strings_SplitN2 (drop 3 content) ''---'')) = None"
  shows "\<exists>ov. parseEntry w dir entry = Some ov \<and> Name ov = entName entry \<and> Type ov = [] \<and> Block ov = []
         \<and> File ov = [] \<and> ModulePath ov = [] \<and> Module ov = [] \<and> ApplyInfo ov = content"
  using assms
  by (auto simp: parseEntry_def Let_def emptyOverride_def split: if_splits option.splits list.splits)

lemma set_map_filter: "set (List.map_filter f xs) = {y. \<exists>x \<in> set xs. f x = Some y}"
  by (induction xs) (auto simp: map_filter_simps split: option.splits)

lemma loadOverrides_startup_objects:
  assumes "overrides app = []" and "ReadDir w (expandPath w (OverridesDir (config app))) = Some entries"
  shows "map (heap (snd (loadOverrides w app))) (overrides (snd (loadOverrides w app)))
     = sort_key Name (List.map_filter (parseEntry w (expandPath w (OverridesDir (config app)))) entries)"
  using loadOverrides_objects [OF _ assms(2)] assms(1) by (simp add: allocated_def)

lemma refreshAll_fields [simp]:
  "heap (refreshAll app) = heap app" "overrides (refreshAll app) = overrides app"
  "applied (refreshAll app) = applied app" "renameTarget (refreshAll app) = renameTarget app"
  "nextAddr (refreshAll app) = nextAddr app" "config (refreshAll app) = config app"
  by (simp_all add: refreshAll_def)

lemma registryNames_refreshAll [simp]: "registryNames (refreshAll app) = registryNames app"
  by (simp add: registryNames_def)

lemma appliedSet_refreshAll [simp]: "appliedSet (refreshAll app) = appliedSet app"
  by (simp add: appliedSet_def)

lemma appliedSet_upd_True: "appliedSet (app\<lparr>applied := (applied app)(n \<mapsto> True)\<rparr>) = insert n (appliedSet app)"
  by (auto simp: appliedSet_def isApplied_def)

lemma appliedSet_upd_None: "appliedSet (app\<lparr>applied := (applied app)(n := None)\<rparr>) = appliedSet app - {n}"
  by (auto simp: appliedSet_def isApplied_def)

lemma itemAt_Some: "itemAt list idx = Some a \<Longrightarrow> a \<in> set list"
  by (auto simp: itemAt_def split: if_splits)

lemma getSelectedOverride_in: "getSelectedOverride app = Some a \<Longrightarrow> a \<in> set (overrides app)"
  by (auto simp: getSelectedOverride_def Let_def getAvailableOverrides_def getAppliedOverrides_def
      dest!: itemAt_Some split: if_splits option.splits list.splits)

lemma toggle_registryNames: "registryNames (fst (toggleOverride app w)) = registryNames app"
  by (simp add: toggleOverride_def Let_def registryNames_def split: option.splits)

lemma toggle_appliedSet:
  "appliedSet (fst (toggleOverride app w)) \<subseteq> appliedSet app \<union> set (registryNames app)"
proof -
  have "itemAt (getAvailableOverrides app) i = Some a \<Longrightarrow> Name (heap app a) \<in> set (registryNames app)" for i a
    by (auto simp: registryNames_def getAvailableOverrides_def dest!: itemAt_Some)
  then show ?thesis
    by (auto simp: toggleOverride_def Let_def appliedSet_upd_True appliedSet_upd_None split: option.splits)
qed

lemma names_removeFirstNamed:
  "map (\<lambda>a. Name (h a)) (removeFirstNamed h n as) = remove1 n (map (\<lambda>a. Name (h a)) as)"
  by (induction as) auto

lemma delete_registryNames:
  "registryNames (fst (deleteSelectedOverride app w)) =
     (case getSelectedOverride app of None \<Rightarrow> registryNames app
      | Some sel \<Rightarrow> remove1 (Name (heap app sel)) (registryNames app))"
  by (simp add: deleteSelectedOverride_def Let_def registryNames_def names_removeFirstNamed split: option.splits)

lemma delete_appliedSet:
  "appliedSet (fst (deleteSelectedOverride app w)) =
     (case getSelectedOverride app of None \<Rightarrow> appliedSet app
      | Some sel \<Rightarrow> appliedSet app - {Name (heap app sel)})"
  by (auto simp: deleteSelectedOverride_def Let_def appliedSet_def isApplied_def split: option.splits)

lemma set_sortByName [simp]: "set (sortByName h as) = set as"
  by (simp add: sortByName_def)

lemma mset_sortByName [simp]: "mset (sortByName h as) = mset as"
  by (simp add: sortByName_def)

lemma sorted_names_sortByName: "sorted (map (\<lambda>a. Name (h a)) (sortByName h as))"
  by (simp add: registryNames_sortByName)

lemma rename_result:
  assumes "renameTarget app = Some t"
    and "\<not> RenameFails w (FolderPath (heap app t))
           (filepath_Join (filepath_Dir (FolderPath (heap app t))) newName)"
  shows "heap (fst (renameSelectedOverride newName app w))
           = (heap app)(t := (heap app t)\<lparr>Name := newName,
                FolderPath := filepath_Join (filepath_Dir (FolderPath (heap app t))) newName\<rparr>)"
    and "overrides (fst (renameSelectedOverride newName app w))
           = sortByName ((heap app)(t := (heap app t)\<lparr>Name := newName,
                FolderPath := filepath_Join (filepath_Dir (FolderPath (heap app t))) newName\<rparr>))
               (overrides app)"
    and "appliedSet (fst (renameSelectedOverride newName app w))
           = (if Name (heap app t) \<in> appliedSet app
              then insert newName (appliedSet app - {Name (heap app t)}) else appliedSet app)"
  using assms
  by (auto simp: renameSelectedOverride_def Let_def appliedSet_def isApplied_def split: option.splits)

lemma rename_unchanged:
  assumes "renameTarget app = None
       \<or> (\<exists>t. renameTarget app = Some t \<and> RenameFails w (FolderPath (heap app t))
           (filepath_Join (filepath_Dir (FolderPath (heap app t))) newName))"
  shows "renameSelectedOverride newName app w = (app, w)"
  using assms by (auto simp: renameSelectedOverride_def Let_def)

lemma create_result:
  assumes "\<not> MkdirAllFails w (filepath_Join (expandPath w (OverridesDir (config app))) name)"
    and "allocated app"
  shows "registryNames (createNewOverride name app w) = sort (registryNames app @ [name])"
proof -
  define ov where "ov = emptyOverride\<lparr>Name := name, Type := [], Block := [],
       FolderPath := filepath_Join (expandPath w (OverridesDir (config app))) name,
       ApplyInfo := applyTemplate\<rparr>"
  define h where "h = (heap app)(nextAddr app := ov)"
  have app': "heap (createNewOverride name app w) = h"
    "overrides (createNewOverride name app w) = sortByName h (overrides app @ [nextAddr app])"
    using assms(1) by (simp_all add: createNewOverride_def Let_def h_def ov_def)
  have old: "map (\<lambda>a. Name (h a)) (overrides app) = map (\<lambda>a. Name (heap app a)) (overrides app)"
    using assms(2) by (auto simp: allocated_def h_def)
  have new: "Name (h (nextAddr app)) = name"
    by (simp add: h_def ov_def)
  have "registryNames (createNewOverride name app w)
          = sort (map (\<lambda>a. Name (h a)) (overrides app @ [nextAddr app]))"
    unfolding registryNames_def app' by (rule registryNames_sortByName)
  also have "\<dots> = sort (registryNames app @ [name])"
    by (simp add: old new registryNames_def)
  finally show ?thesis .
qed

lemma create_failed:
  assumes "MkdirAllFails w (filepath_Join (expandPath w (OverridesDir (config app))) name)"
  shows "createNewOverride name app w = app"
  using assms by (simp add: createNewOverride_def Let_def)

lemma rename_registryNames_set:
  assumes "renameTarget app = Some t" and "t \<in> set (overrides app)"
    and "\<not> RenameFails w (FolderPath (heap app t))
           (filepath_Join (filepath_Dir (FolderPath (heap app t))) newName)"
  shows "set (registryNames (fst (renameSelectedOverride newName app w)))
           \<supseteq> insert newName (set (registryNames app) - {Name (heap app t)})"
proof -
  let ?h = "(heap app)(t := (heap app t)\<lparr>Name := newName,
                FolderPath := filepath_Join (filepath_Dir (FolderPath (heap app t))) newName\<rparr>)"
  have "set (registryNames (fst (renameSelectedOverride newName app w)))
          = (\<lambda>a. Name (?h a)) ` set (overrides app)"
    by (simp add: registryNames_def rename_result(1,2) [OF assms(1,3)])
  moreover have "newName \<in> (\<lambda>a. Name (?h a)) ` set (overrides app)"
    using assms(2) by (auto simp: image_iff intro!: bexI [of _ t])
  moreover have "x \<in> (\<lambda>a. Name (?h a)) ` set (overrides app)"
    if "x \<in> set (registryNames app)" "x \<noteq> Name (heap app t)" for x
  proof -
    from that obtain a where "a \<in> set (overrides app)" "Name (heap app a) = x"
      by (auto simp: registryNames_def)
    with that(2) have "a \<noteq> t" by auto
    with \<open>a \<in> set (overrides app)\<close> \<open>Name (heap app a) = x\<close> show ?thesis
      by (auto simp: image_iff intro!: bexI [of _ a])
  qed
  ultimately show ?thesis by auto
qed

lemma names_map_filter_parseEntry:
  "map Name (List.map_filter (parseEntry w dir) es)
     = map entName (filter (\<lambda>e. parseEntry w dir e \<noteq> None) es)"
  by (induction es) (auto simp: map_filter_simps dest: parseEntry_Some split: option.splits)

lemma rename_distinct:
  assumes "distinct (registryNames app)" and "newName \<notin> set (registryNames app)"
  shows "distinct (registryNames (fst (renameSelectedOverride newName app w)))"
proof (cases "renameTarget app")
  case None
  then show ?thesis using assms by (simp add: rename_unchanged)
next
  case (Some t)
  show ?thesis
  proof (cases "RenameFails w (FolderPath (heap app t))
           (filepath_Join (filepath_Dir (FolderPath (heap app t))) newName)")
    case True
    with Some show ?thesis using assms by (simp add: rename_unchanged)
  next
    case False
    let ?h = "(heap app)(t := (heap app t)\<lparr>Name := newName,
                FolderPath := filepath_Join (filepath_Dir (FolderPath (heap app t))) newName\<rparr>)"
    from assms(1) have d: "distinct (overrides app)" and i: "inj_on (\<lambda>a. Name (heap app a)) (set (overrides app))"
      by (simp_all add: registryNames_def distinct_map)
    have "inj_on (\<lambda>a. Name (?h a)) (set (overrides app))"
      using i assms(2) by (auto simp: inj_on_def registryNames_def)
    with d have "distinct (map (\<lambda>a. Name (?h a)) (overrides app))"
      by (simp add: distinct_map)
    then have "distinct (sort (map (\<lambda>a. Name (?h a)) (overrides app)))"
      by simp
    then show ?thesis
      unfolding registryNames_def rename_result(1,2) [OF Some False] registryNames_sortByName .
  qed
qed

lemma loadEntries_envrc: "loadEntries (w\<lparr>envrc := f\<rparr>) dir es app = loadEntries w dir es app"
  by (induction es arbitrary: app) (auto simp: Let_def split: option.splits list.splits)

lemma expandPath_envrc: "expandPath (w\<lparr>envrc := f\<rparr>) p = expandPath w p"
  by (simp add: expandPath_def)

lemma loadOverrides_envrc: "loadOverrides (w\<lparr>envrc := f\<rparr>) app = loadOverrides w app"
  by (simp add: loadOverrides_def expandPath_envrc loadEntries_envrc Let_def split: option.splits)

lemma loadEntries_applied: "applied (loadEntries w dir es app) = applied app"
  by (induction es arbitrary: app) (simp_all add: Let_def split: option.splits)

lemma loadOverrides_applied: "applied (snd (loadOverrides w app)) = applied app"
  by (simp add: loadOverrides_def Let_def loadEntries_applied split: option.splits)

lemma loadEntries_config: "config (loadEntries w dir es app) = config app"
  by (induction es arbitrary: app) (simp_all add: Let_def split: option.splits)

lemma loadOverrides_config: "config (snd (loadOverrides w app)) = config app"
  by (simp add: loadOverrides_def Let_def loadEntries_config split: option.splits)

lemma showRenameInput_fields [simp]:
  "heap (showRenameInput app) = heap app" "overrides (showRenameInput app) = overrides app"
  "applied (showRenameInput app) = applied app" "config (showRenameInput app) = config app"
  "nextAddr (showRenameInput app) = nextAddr app"
  by (simp_all add: showRenameInput_def split: option.splits)

lemma showRenameInput_target:
  "getSelectedOverride app = Some a \<Longrightarrow> renameTarget (showRenameInput app) = Some a"
  by (simp add: showRenameInput_def)

lemma delete_ignores_RemoveAll:
  "fst (deleteSelectedOverride app (w\<lparr>RemoveAllFails := f\<rparr>)) = fst (deleteSelectedOverride app w)
   \<and> envrc (snd (deleteSelectedOverride app (w\<lparr>RemoveAllFails := f\<rparr>)))
       = envrc (snd (deleteSelectedOverride app w))"
  by (simp add: deleteSelectedOverride_def savePersistedState_def Let_def split: option.splits)

subsection \<open>The examples, evaluated\<close>

lemma demo_expandPath: "expandPath demoWorld (OverridesDir (config (newApp demoConfig ''/proj''))) = demoDir"
  by code_simp

lemma demoApp_eval: "map (heap demoApp) (overrides demoApp) = 
   [emptyOverride\<lparr>Name := ''broken'', ApplyInfo := brokenApply, FolderPath := ''/proj/conf/overrides/broken''\<rparr>,
    emptyOverride\<lparr>Name := ''good'', Type := ''+'', Block := ''log.level'', Content := ''level: debug'' @ [nl], ApplyInfo := goodApply, FolderPath := ''/proj/conf/overrides/good''\<rparr>]"
  by code_simp

lemma demoApp_names: "registryNames demoApp = [''broken'', ''good'']"
  by code_simp

lemma demoApp_overrides: "overrides demoApp = [0, 1]"
  by code_simp

lemma demoApp_appliedSet: "appliedSet demoApp = {}"
  by (simp add: appliedSet_def demoApp_def loadOverrides_applied newApp_def isApplied_def)

lemmas go_eval =
  nl_def cr_def dquote_def squote_def padChar_def MaxScanTokenSize_def dropCR_def scanLines_def
  strings_HasPrefix_def strings_TrimPrefix_def strings_Trim_def strings_Split_def
  strings_TrimSpace_def trimLeftEncodings.simps spaceEncodings_def
  base64_DecodeString_def decodeChar_def encodeChar_def encodeStd_def char_of_eq_iff

lemma demoApp_applied: "applied demoApp = Map.empty"
  by (simp add: demoApp_def loadOverrides_applied newApp_def)

lemma demoApp_config: "config demoApp = demoConfig"
  by (simp add: demoApp_def loadOverrides_config newApp_def)

lemma ghost_decode: "base64_DecodeString ''Z2hvc3Q='' = Some ''ghost''"
  by (simp add: go_eval)

lemma ghost_loadLines:
  "loadLines ''export HYDRA_OVERRIDES='' (fst (scanLines ghostFile)) (snd (scanLines ghostFile))
      Map.empty = (None, [''ghost'' \<mapsto> True])"
  by (simp add: ghostFile_def ghost_decode nl_def cr_def dquote_def squote_def MaxScanTokenSize_def
      dropCR_def scanLines_def strings_HasPrefix_def strings_TrimPrefix_def strings_Trim_def
      strings_Split_def strings_TrimSpace_def trimLeftEncodings.simps spaceEncodings_def)

lemma ghostApp_applied: "applied ghostApp = [''ghost'' \<mapsto> True]"
  by (simp add: ghostApp_def ghostWorld_def loadPersistedState_def demoApp_applied demoApp_config
      demoConfig_def case_prod_beta ghost_loadLines)

lemma ghostApp_names: "registryNames ghostApp = [''broken'', ''good'']"
proof -
  have "registryNames (snd (loadPersistedState w app)) = registryNames app" for w app
    by (simp add: loadPersistedState_def registryNames_def split: FileState.splits prod.splits)
  then show ?thesis
    by (simp add: ghostApp_def demoApp_names)
qed

lemma demoApp_selected: "getSelectedOverride demoApp = Some 0"
  by code_simp

lemma ghostApp_selected: "getSelectedOverride ghostApp = Some 0"
proof -
  have "overrides ghostApp = [0, 1]" "currentPanelIdx ghostApp = 0" "availableCur ghostApp = 0"
    "Name (heap ghostApp 0) = ''broken''" "Name (heap ghostApp 1) = ''good''"
    unfolding ghostApp_def loadPersistedState_def ghostWorld_def
    by (simp_all add: case_prod_beta demoApp_overrides) code_simp+
  then show ?thesis
    by (simp add: getSelectedOverride_def getAvailableOverrides_def ghostApp_applied isApplied_def
        itemAt_def)
qed

lemma loadedOne_space:
  "overrides (loadedOne ''a '') = [0]" "Name (heap (loadedOne ''a '') 0) = ''a ''"
  "currentPanelIdx (loadedOne ''a '') = 0" "availableCur (loadedOne ''a '') = 0"
  "fst (loadOverrides (oneFolderWorld ''a '') (newApp demoConfig ''/proj'')) = None"
  by code_simp+

lemma loadedOne_applied: "applied (loadedOne name) = Map.empty"
  by (simp add: loadedOne_def loadOverrides_applied newApp_def)

lemma loadedOne_config: "config (loadedOne name) = demoConfig"
  by (simp add: loadedOne_def loadOverrides_config newApp_def)

lemma toggle_one:
  assumes "overrides (loadedOne name) = [0]" "Name (heap (loadedOne name) 0) = name"
    "currentPanelIdx (loadedOne name) = 0" "availableCur (loadedOne name) = 0"
  shows "appliedOne name = refreshAll ((loadedOne name)\<lparr>applied := [name \<mapsto> True]\<rparr>)"
    and "savedOne name
           = snd (savePersistedState ((loadedOne name)\<lparr>applied := [name \<mapsto> True]\<rparr>) (oneFolderWorld name))"
  using assms
  by (simp_all add: appliedOne_def savedOne_def toggleOverride_def getAvailableOverrides_def
      loadedOne_applied isApplied_def itemAt_def Let_def)

lemma restarted_one:
  assumes "overrides (loadedOne name) = [0]" "Name (heap (loadedOne name) 0) = name"
    "currentPanelIdx (loadedOne name) = 0" "availableCur (loadedOne name) = 0"
    and "length name < 1000"
  shows "applied (restartedOne name) = addNames Map.empty (strings_Split name '','')"
proof -
  let ?app = "(loadedOne name)\<lparr>applied := [name \<mapsto> True]\<rparr>"
  have n: "appliedNamesOf ?app = [name]"
    using assms by (simp add: appliedNamesOf_def registryNames_def isApplied_def)
  have w: "\<not> writeFails (oneFolderWorld name)"
    by (simp add: oneFolderWorld_def quietWorld_def)
  have env: "nl \<notin> set (EnvVarName (config ?app))"
    by (simp add: loadedOne_config demoConfig_def nl_def)
  have "length (base64_EncodeToString bs) \<le> 4 * length bs + 4" for bs
    by (induction bs rule: base64_EncodeToString.induct) (simp_all add: Let_def)
  from this [of name] assms(5) have len: "length (appliedLine ?app) < MaxScanTokenSize"
    by (simp add: appliedLine_def managedPrefix_def n loadedOne_config demoConfig_def
        MaxScanTokenSize_def)
  have cfg: "config (loadedOne name) = config ?app"
    by simp
  from save_load_decoded [OF w env len cfg] show ?thesis
    by (simp add: restartedOne_def toggle_one(2) [OF assms(1-4)] n loadedOne_applied)
qed

lemma startup_savedOne:
  assumes "overrides (loadedOne name) = [0]" "Name (heap (loadedOne name) 0) = name"
    "currentPanelIdx (loadedOne name) = 0" "availableCur (loadedOne name) = 0"
    and "fst (loadOverrides (oneFolderWorld name) (newApp demoConfig ''/proj'')) = None"
  shows "startup demoConfig ''/proj'' (savedOne name) = Inr (restartedOne name)"
proof -
  have "loadOverrides (savedOne name) (newApp demoConfig ''/proj'')
          = loadOverrides (oneFolderWorld name) (newApp demoConfig ''/proj'')"
    unfolding toggle_one(2) [OF assms(1-4)]
    by (subst savePersistedState_world) (rule loadOverrides_envrc)
  also have "\<dots> = (None, loadedOne name)"
    using assms(5) by (simp add: loadedOne_def prod_eq_iff)
  finally show ?thesis
    by (simp add: startup_def restartedOne_def)
qed

lemma appliedOne_sets:
  assumes "overrides (loadedOne name) = [0]" "Name (heap (loadedOne name) 0) = name"
    "currentPanelIdx (loadedOne name) = 0" "availableCur (loadedOne name) = 0"
  shows "registryNames (appliedOne name) = [name]" "appliedSet (appliedOne name) = {name}"
    "savedOne name = snd (savePersistedState (appliedOne name) (oneFolderWorld name))"
  using assms
  by (auto simp: toggle_one [OF assms] registryNames_def appliedSet_def isApplied_def
      savePersistedState_refreshAll split: if_splits)

lemma loadedOne_comma:
  "overrides (loadedOne ''a,b'') = [0]" "Name (heap (loadedOne ''a,b'') 0) = ''a,b''"
  "currentPanelIdx (loadedOne ''a,b'') = 0" "availableCur (loadedOne ''a,b'') = 0"
  "fst (loadOverrides (oneFolderWorld ''a,b'') (newApp demoConfig ''/proj'')) = None"
  by code_simp+

lemma alphaBeta_fields:
  "registryNames (alphaBetaApp ap) = [''alpha'', ''beta'']"
  "config (alphaBetaApp ap) = demoConfig"
  "applied (alphaBetaApp ap) = ap"
  by (simp_all add: alphaBetaApp_def registryNames_def newApp_def emptyOverride_def demoConfig_def)

lemma trimSpace_alpha: "strings_TrimSpace ''alpha'' = ''alpha''" "strings_TrimSpace ''beta'' = ''beta''"
  by (simp_all add: strings_TrimSpace_def trimLeftEncodings.simps spaceEncodings_def
      strings_HasPrefix_def)

lemma bothApplied_set: "appliedSet bothApplied = {''alpha'', ''beta''}"
  by (auto simp: appliedSet_def bothApplied_def alphaBeta_fields isApplied_def split: if_splits)

lemma withOrphan_set: "appliedSet withOrphan = {''alpha'', ''ghost''}"
  by (auto simp: appliedSet_def withOrphan_def alphaBeta_fields isApplied_def split: if_splits)

lemma demoEnvrc_lines:
  "textLines demoEnvrc =
     [''PATH_add bin'',
      ''export HYDRA_OVERRIDES='' @ [dquote] @ ''b2xk'' @ [dquote],
      ''export HYDRA_OVERRIDE_STR='' @ [dquote] @ ''old'' @ [dquote],
      ''layout python'']"
  by (simp add: textLines_def demoEnvrc_def nl_def dquote_def)

lemma bothApplied_managed:
  "managedLines bothApplied =
     [''export HYDRA_OVERRIDES='' @ [dquote] @ ''YWxwaGEsYmV0YQ=='' @ [dquote],
      ''export HYDRA_OVERRIDE_STR='' @ [dquote]
        @ ''+overrides/alpha@log.level=override =overrides/beta@log.level=override'' @ [dquote]]"
proof -
  have n: "appliedNamesOf bothApplied = [''alpha'', ''beta'']"
    by (simp add: appliedNamesOf_def bothApplied_def alphaBeta_fields isApplied_def)
  have e: "base64_EncodeToString ''alpha,beta'' = ''YWxwaGEsYmV0YQ==''"
    by (simp add: encodeChar_def encodeStd_def padChar_def)
  have b: "buildOverrideString bothApplied
      = ''+overrides/alpha@log.level=override'' @ [nl] @ ''=overrides/beta@log.level=override''"
    by (simp add: buildOverrideString_def bothApplied_def alphaBetaApp_def newApp_def
        emptyOverride_def isApplied_def)
  have r: "strings_ReplaceAll (''+overrides/alpha@log.level=override'' @ [nl]
              @ ''=overrides/beta@log.level=override'') [nl] '' ''
      = ''+overrides/alpha@log.level=override =overrides/beta@log.level=override''"
    by (simp add: strings_ReplaceAll_def strings_Split_def strings_HasPrefix_def nl_def)
  have c: "config bothApplied = demoConfig"
    by (simp add: bothApplied_def alphaBeta_fields)
  show ?thesis
    by (simp add: managedLines_def n appliedLine_def overrideStrLine_def managedPrefix_def e c
        demoConfig_def b r [simplified] del: base64_EncodeToString.simps)
qed

lemma noneApplied_managed:
  "managedLines (newApp demoConfig ''/proj'') = [''export HYDRA_OVERRIDE_STR='' @ [dquote, dquote]]"
proof -
  have "appliedNamesOf (newApp demoConfig ''/proj'') = []"
    by (simp add: appliedNamesOf_def registryNames_def newApp_def)
  then show ?thesis
    by (simp add: managedLines_def overrideStrLine_none)
qed

section \<open>The claims\<close>

subsection \<open>Claim C1\<close>

text \<open>
  Claim C1, amended. Let the Applied set consist of registry names that are non-empty,
  hold no comma and have no leading or trailing white space; let the configured key
  hold no newline, the applied-names line be shorter than \<open>MaxScanTokenSize\<close> and the
  write succeed. Then loading the written file into a fresh process state with the
  same configuration returns no error and yields exactly that Applied set. The Applied
  set is a map, so the order in which the names were applied is not part of the state.
\<close>

theorem C1_roundtrip:
  assumes "\<not> writeFails w"
    and "nl \<notin> set (EnvVarName (config app))"
    and "appliedSet app \<subseteq> set (registryNames app)"
    and "\<forall>n \<in> appliedSet app. n \<noteq> [] \<and> CHR '','' \<notin> set n \<and> strings_TrimSpace n = n"
    and "length (appliedLine app) < MaxScanTokenSize"
    and "config app0 = config app"
    and "applied app0 = Map.empty"
  shows "fst (loadPersistedState (snd (savePersistedState app w)) app0) = None
    \<and> appliedSet (snd (loadPersistedState (snd (savePersistedState app w)) app0)) = appliedSet app"
proof -
  from assms(3) have s: "set (appliedNamesOf app) = appliedSet app"
    by (auto simp: appliedNamesOf_set)
  with assms(4) have v: "\<forall>n \<in> set (appliedNamesOf app). n \<noteq> [] \<and> CHR '','' \<notin> set n"
    and t: "\<forall>n \<in> set (appliedNamesOf app). strings_TrimSpace n = n \<and> n \<noteq> []"
    by auto
  from v have c: "\<forall>n \<in> set (appliedNamesOf app). CHR '','' \<notin> set n"
    by simp
  from save_load_valid [OF assms(1,2) c assms(5,6)] assms(7) appliedSet_addNames [OF t] s
  show ?thesis by simp
qed

theorem C1_roundtrip_witness:
  "appliedSet bothApplied = {''alpha'', ''beta''}
   \<and> fst (loadPersistedState (snd (savePersistedState bothApplied quietWorld))
            (newApp demoConfig ''/proj'')) = None
   \<and> appliedSet (snd (loadPersistedState (snd (savePersistedState bothApplied quietWorld))
            (newApp demoConfig ''/proj''))) = {''alpha'', ''beta''}"
proof -
  have 1: "\<not> writeFails quietWorld"
    by (simp add: quietWorld_def)
  have 2: "nl \<notin> set (EnvVarName (config bothApplied))"
    by (simp add: bothApplied_def alphaBeta_fields demoConfig_def nl_def)
  have 3: "appliedSet bothApplied \<subseteq> set (registryNames bothApplied)"
    by (simp add: bothApplied_set) (simp add: bothApplied_def alphaBeta_fields)
  have 4: "\<forall>n \<in> appliedSet bothApplied. n \<noteq> [] \<and> CHR '','' \<notin> set n \<and> strings_TrimSpace n = n"
    by (simp add: bothApplied_set trimSpace_alpha)
  have "appliedNamesOf bothApplied = [''alpha'', ''beta'']"
    by (simp add: appliedNamesOf_def bothApplied_def alphaBeta_fields isApplied_def)
  then have 5: "length (appliedLine bothApplied) < MaxScanTokenSize"
    by (intro appliedLine_short) (simp_all add: bothApplied_def alphaBeta_fields demoConfig_def)
  have 6: "config (newApp demoConfig ''/proj'') = config bothApplied"
    by (simp add: bothApplied_def alphaBeta_fields newApp_def)
  have 7: "applied (newApp demoConfig ''/proj'') = Map.empty"
    by (simp add: newApp_def)
  from C1_roundtrip [OF 1 2 3 4 5 6 7] bothApplied_set show ?thesis
    by simp
qed

text \<open>
  Claim C1 as stated fails for a name with trailing white space: the folder \<open>a \<close>
  (non-empty, no comma, in the registry) is applied and saved, and after a restart the
  Applied set is \<open>{a}\<close>, because \<open>loadPersistedState\<close> trims every decoded name.
\<close>

theorem C1_counterexample:
  "registryNames (appliedOne ''a '') = [''a '']
   \<and> appliedSet (appliedOne ''a '') = {''a ''}
   \<and> savedOne ''a '' = snd (savePersistedState (appliedOne ''a '') (oneFolderWorld ''a ''))
   \<and> startup demoConfig ''/proj'' (savedOne ''a '') = Inr (restartedOne ''a '')
   \<and> appliedSet (restartedOne ''a '') = {''a''}"
proof -
  note l = loadedOne_space
  have "applied (restartedOne ''a '') = [''a'' \<mapsto> True]"
    using restarted_one [OF l(1-4)]
    by (simp add: strings_Split_def strings_HasPrefix_def strings_TrimSpace_def
        trimLeftEncodings.simps spaceEncodings_def)
  then have "appliedSet (restartedOne ''a '') = {''a''}"
    by (auto simp: appliedSet_def isApplied_def split: if_splits)
  with appliedOne_sets [OF l(1-4)] startup_savedOne [OF l] show ?thesis
    by simp
qed

subsection \<open>Claim C2\<close>

text \<open>
  Claim C2. For every registry and every \<open>applied\<close> map, \<open>buildOverrideString\<close> is the
  newline-joined list of the fragments of the applied Overrides, in the order of the
  collection; with nothing applied it is the empty string; and with \<open>alpha\<close>
  (\<open>+\<close>, \<open>log.level\<close>) and \<open>beta\<close> (\<open>=\<close>, \<open>log.level\<close>) applied, in either order of
  application, it is the two fragments of the scenario joined by a newline.
\<close>

theorem C2_buildOverrideString:
  "buildOverrideString app =
     strings_Join (map (\<lambda>a. fragment (heap app a)) (getAppliedOverrides app)) [nl]
   \<and> (appliedSet app = {} \<longrightarrow> buildOverrideString app = [])
   \<and> buildOverrideString (alphaBetaApp ((Map.empty(''alpha'' \<mapsto> True))(''beta'' \<mapsto> True)))
       = ''+overrides/alpha@log.level=override'' @ [nl] @ ''=overrides/beta@log.level=override''
   \<and> buildOverrideString (alphaBetaApp ((Map.empty(''beta'' \<mapsto> True))(''alpha'' \<mapsto> True)))
       = ''+overrides/alpha@log.level=override'' @ [nl] @ ''=overrides/beta@log.level=override''"
proof (intro conjI impI)
  show general: "buildOverrideString app =
      strings_Join (map (\<lambda>a. fragment (heap app a)) (getAppliedOverrides app)) [nl]"
    by (simp add: buildOverrideString_def buildParts_eq getAppliedOverrides_def)
  show "buildOverrideString app = []" if "appliedSet app = {}"
  proof -
    from that have "\<forall>n. \<not> isApplied (applied app) n"
      by (auto simp: appliedSet_def)
    then have "getAppliedOverrides app = []"
      unfolding getAppliedOverrides_def by (rule filter_applied_empty)
    with general show ?thesis by simp
  qed
  show "buildOverrideString (alphaBetaApp ((Map.empty(''alpha'' \<mapsto> True))(''beta'' \<mapsto> True)))
       = ''+overrides/alpha@log.level=override'' @ [nl] @ ''=overrides/beta@log.level=override''"
    by (simp add: buildOverrideString_def alphaBetaApp_def newApp_def emptyOverride_def
        isApplied_def)
  show "buildOverrideString (alphaBetaApp ((Map.empty(''beta'' \<mapsto> True))(''alpha'' \<mapsto> True)))
       = ''+overrides/alpha@log.level=override'' @ [nl] @ ''=overrides/beta@log.level=override''"
    by (simp add: buildOverrideString_def alphaBetaApp_def newApp_def emptyOverride_def
        isApplied_def)
qed

theorem C2_buildOverrideString_witness:
  "appliedSet (alphaBetaApp Map.empty) = {}
   \<and> buildOverrideString (alphaBetaApp Map.empty) = []"
proof -
  have h: "appliedSet (alphaBetaApp Map.empty) = {}"
    by (simp add: appliedSet_def alphaBetaApp_def isApplied_def)
  from C2_buildOverrideString [of "alphaBetaApp Map.empty"] h show ?thesis
    by blast
qed

subsection \<open>Claim C3\<close>

text \<open>
  Claim C3, amended. Toggle, delete and rename keep the Applied set within the names of
  the registry: when every applied name is the \<open>Name\<close> of an Override of the collection
  before the operation, the same holds after it (for rename, given that the Override
  being renamed is one of the collection, as \<open>showRenameInput\<close> sets it). The load of
  the persisted state at startup is not among them: see the counterexample.
\<close>

theorem C3_applied_within_registry:
  assumes "appliedSet app \<subseteq> set (registryNames app)"
  shows "appliedSet (fst (toggleOverride app w))
           \<subseteq> set (registryNames (fst (toggleOverride app w)))
    \<and> appliedSet (fst (deleteSelectedOverride app w))
           \<subseteq> set (registryNames (fst (deleteSelectedOverride app w)))
    \<and> ((\<forall>t. renameTarget app = Some t \<longrightarrow> t \<in> set (overrides app))
         \<longrightarrow> appliedSet (fst (renameSelectedOverride newName app w))
               \<subseteq> set (registryNames (fst (renameSelectedOverride newName app w))))"
proof (intro conjI impI)
  show "appliedSet (fst (toggleOverride app w)) \<subseteq> set (registryNames (fst (toggleOverride app w)))"
    using toggle_appliedSet [of app w] assms by (auto simp: toggle_registryNames)
  show "appliedSet (fst (deleteSelectedOverride app w))
           \<subseteq> set (registryNames (fst (deleteSelectedOverride app w)))"
    using assms
    by (auto simp: delete_registryNames delete_appliedSet in_set_remove1 subset_iff
        split: option.splits)
  assume tgt: "\<forall>t. renameTarget app = Some t \<longrightarrow> t \<in> set (overrides app)"
  show "appliedSet (fst (renameSelectedOverride newName app w))
               \<subseteq> set (registryNames (fst (renameSelectedOverride newName app w)))"
  proof (cases "renameTarget app")
    case None
    then show ?thesis using assms by (simp add: rename_unchanged)
  next
    case (Some t)
    show ?thesis
    proof (cases "RenameFails w (FolderPath (heap app t))
           (filepath_Join (filepath_Dir (FolderPath (heap app t))) newName)")
      case True
      with Some show ?thesis using assms by (simp add: rename_unchanged)
    next
      case False
      from tgt Some have "t \<in> set (overrides app)" by simp
      from rename_registryNames_set [OF Some this False] rename_result(3) [OF Some False] assms
      show ?thesis by (auto split: if_splits)
    qed
  qed
qed

theorem C3_applied_within_registry_witness:
  "appliedSet (showRenameInput demoApp) \<subseteq> set (registryNames (showRenameInput demoApp))
   \<and> renameTarget (showRenameInput demoApp) = Some 0
   \<and> 0 \<in> set (overrides (showRenameInput demoApp))
   \<and> appliedSet (fst (toggleOverride (showRenameInput demoApp) demoWorld))
        \<subseteq> set (registryNames (fst (toggleOverride (showRenameInput demoApp) demoWorld)))
   \<and> appliedSet (fst (deleteSelectedOverride (showRenameInput demoApp) demoWorld))
        \<subseteq> set (registryNames (fst (deleteSelectedOverride (showRenameInput demoApp) demoWorld)))
   \<and> appliedSet (fst (renameSelectedOverride ''zeta'' (showRenameInput demoApp) demoWorld))
        \<subseteq> set (registryNames (fst (renameSelectedOverride ''zeta'' (showRenameInput demoApp) demoWorld)))"
proof -
  let ?app = "showRenameInput demoApp"
  have h1: "appliedSet ?app \<subseteq> set (registryNames ?app)"
    using demoApp_appliedSet by (simp add: appliedSet_def)
  have h2: "renameTarget ?app = Some 0"
    by (simp add: showRenameInput_target demoApp_selected)
  have h3: "0 \<in> set (overrides ?app)"
    by (simp add: demoApp_overrides)
  from h2 h3 have h4: "\<forall>t. renameTarget ?app = Some t \<longrightarrow> t \<in> set (overrides ?app)"
    by simp
  from C3_applied_within_registry [OF h1, where w = demoWorld and newName = "''zeta''"] h1 h2 h3 h4
  show ?thesis by blast
qed

text \<open>
  Claim C3 as stated fails at startup: the state file names \<open>ghost\<close>
  (\<open>Z2hvc3Q=\<close> in base64), the registry has no such Override, and after the load
  \<open>ghost\<close> is in the Applied set.
\<close>

theorem C3_counterexample:
  "startup demoConfig ''/proj'' ghostWorld = Inr ghostApp
   \<and> ''ghost'' \<in> appliedSet ghostApp
   \<and> ''ghost'' \<notin> set (registryNames ghostApp)"
proof (intro conjI)
  have "fst (loadOverrides demoWorld (newApp demoConfig ''/proj'')) = None"
    by code_simp
  then have "loadOverrides demoWorld (newApp demoConfig ''/proj'') = (None, demoApp)"
    by (simp add: demoApp_def prod_eq_iff)
  then show "startup demoConfig ''/proj'' ghostWorld = Inr ghostApp"
    by (simp add: startup_def ghostApp_def ghostWorld_def loadOverrides_envrc)
  show "''ghost'' \<in> appliedSet ghostApp"
    by (simp add: appliedSet_def ghostApp_applied isApplied_def)
  show "''ghost'' \<notin> set (registryNames ghostApp)"
    by (simp add: ghostApp_names)
qed

subsection \<open>Claim C4\<close>

text \<open>
  Claim C4, amended. The names of the registry are distinct after a load at startup
  (the directory listing has distinct names); delete keeps them distinct; create keeps
  them distinct when the new name is not yet a name of the registry, and so does rename.
  Neither create nor rename looks for the name in the registry: see the counterexample.
\<close>

theorem C4_names_distinct:
  "(overrides app0 = []
      \<and> ReadDir w0 (expandPath w0 (OverridesDir (config app0))) = Some entries
      \<and> distinct (map entName entries)
      \<longrightarrow> distinct (registryNames (snd (loadOverrides w0 app0))))
   \<and> (distinct (registryNames app)
      \<longrightarrow> distinct (registryNames (fst (deleteSelectedOverride app w))))
   \<and> (distinct (registryNames app) \<and> allocated app \<and> name \<notin> set (registryNames app)
      \<longrightarrow> distinct (registryNames (createNewOverride name app w)))
   \<and> (distinct (registryNames app) \<and> newName \<notin> set (registryNames app)
      \<longrightarrow> distinct (registryNames (fst (renameSelectedOverride newName app w))))"
proof (intro conjI impI)
  assume h: "overrides app0 = []
      \<and> ReadDir w0 (expandPath w0 (OverridesDir (config app0))) = Some entries
      \<and> distinct (map entName entries)"
  let ?dir = "expandPath w0 (OverridesDir (config app0))"
  let ?w = w0
  have "registryNames (snd (loadOverrides w0 app0))
          = map Name (map (heap (snd (loadOverrides w0 app0))) (overrides (snd (loadOverrides w0 app0))))"
    by (simp add: registryNames_def)
  also have "\<dots> = map Name (sort_key Name (List.map_filter (parseEntry w0 ?dir) entries))"
    using loadOverrides_startup_objects [of app0 w0 entries] h by simp
  also have "\<dots> = sort (map Name (List.map_filter (parseEntry w0 ?dir) entries))"
    by (rule map_sort_key [of Name "\<lambda>x. x"])
  also have "\<dots> = sort (map entName (filter (\<lambda>e. parseEntry w0 ?dir e \<noteq> None) entries))"
    by (simp only: names_map_filter_parseEntry)
  finally show "distinct (registryNames (snd (loadOverrides w0 app0)))"
    using h by (simp add: distinct_map_filter)
next
  assume "distinct (registryNames app)"
  then show "distinct (registryNames (fst (deleteSelectedOverride app w)))"
    by (simp add: delete_registryNames split: option.splits)
next
  assume h: "distinct (registryNames app) \<and> allocated app \<and> name \<notin> set (registryNames app)"
  show "distinct (registryNames (createNewOverride name app w))"
  proof (cases "MkdirAllFails w (filepath_Join (expandPath w (OverridesDir (config app))) name)")
    case True
    with h show ?thesis by (simp add: create_failed)
  next
    case False
    with h show ?thesis by (simp add: create_result)
  qed
next
  assume "distinct (registryNames app) \<and> newName \<notin> set (registryNames app)"
  then show "distinct (registryNames (fst (renameSelectedOverride newName app w)))"
    by (simp add: rename_distinct)
qed

theorem C4_names_distinct_witness:
  "distinct (registryNames (snd (loadOverrides demoWorld (newApp demoConfig ''/proj''))))
   \<and> distinct (registryNames (fst (deleteSelectedOverride demoApp demoWorld)))
   \<and> distinct (registryNames (createNewOverride ''zeta'' demoApp demoWorld))
   \<and> distinct (registryNames (fst (renameSelectedOverride ''zeta'' demoApp demoWorld)))"
proof -
  let ?new = "newApp demoConfig ''/proj''"
  let ?entries = "[\<lparr>entName = ''broken'', entIsDir = True\<rparr>,
                       \<lparr>entName = ''good'', entIsDir = True\<rparr>,
                       \<lparr>entName = ''nometa'', entIsDir = True\<rparr>,
                       \<lparr>entName = ''notes.txt'', entIsDir = False\<rparr>]"
  have a1: "overrides ?new = []"
    by (simp add: newApp_def)
  have a2: "ReadDir demoWorld (expandPath demoWorld (OverridesDir (config ?new))) = Some ?entries"
    by (simp add: demo_expandPath) (simp add: demoWorld_def quietWorld_def)
  have a3: "distinct (map entName ?entries)"
    by simp
  have b1: "distinct (registryNames demoApp)"
    by (simp add: demoApp_names)
  have b2: "allocated demoApp"
    by (simp add: allocated_def demoApp_overrides) code_simp
  have b3: "''zeta'' \<notin> set (registryNames demoApp)"
    by (simp add: demoApp_names)
  from C4_names_distinct [where ?app0.0 = ?new and ?w0.0 = demoWorld and entries = ?entries
      and app = demoApp and w = demoWorld and name = "''zeta''" and newName = "''zeta''"]
    a1 a2 a3 b1 b2 b3
  show ?thesis by blast
qed

text \<open>
  Claim C4 as stated fails for create: creating \<open>good\<close> in a registry that has
  \<open>good\<close> gives two entries of that name.
\<close>

theorem C4_counterexample:
  "''good'' \<in> set (registryNames demoApp)
   \<and> registryNames (createNewOverride ''good'' demoApp demoWorld) = [''broken'', ''good'', ''good'']
   \<and> \<not> distinct (registryNames (createNewOverride ''good'' demoApp demoWorld))"
  by code_simp

subsection \<open>Claim C5\<close>

text \<open>
  Claim C5, amended. With an Override to rename, a failed disk rename leaves the
  process state and the world as they were. After a successful one the Override has
  the new \<open>Name\<close> and \<open>FolderPath\<close> and nothing else in the store has changed; when the
  old name was applied, it is replaced by the new name in the Applied set, and when it
  was not, the Applied set is unchanged, so that the applied status is preserved
  whenever the new name was not in the Applied set before; the collection is a
  permutation of the old one, sorted by \<open>Name\<close>.
\<close>

theorem C5_rename:
  assumes "renameTarget app = Some t"
  shows
   "(RenameFails w (FolderPath (heap app t))
        (filepath_Join (filepath_Dir (FolderPath (heap app t))) newName)
      \<longrightarrow> renameSelectedOverride newName app w = (app, w))
    \<and> (\<not> RenameFails w (FolderPath (heap app t))
          (filepath_Join (filepath_Dir (FolderPath (heap app t))) newName)
      \<longrightarrow> heap (fst (renameSelectedOverride newName app w))
            = (heap app)(t := (heap app t)\<lparr>Name := newName,
                FolderPath := filepath_Join (filepath_Dir (FolderPath (heap app t))) newName\<rparr>)
        \<and> appliedSet (fst (renameSelectedOverride newName app w))
            = (if Name (heap app t) \<in> appliedSet app
               then insert newName (appliedSet app - {Name (heap app t)})
               else appliedSet app)
        \<and> (newName \<notin> appliedSet app
             \<longrightarrow> (newName \<in> appliedSet (fst (renameSelectedOverride newName app w))
                    \<longleftrightarrow> Name (heap app t) \<in> appliedSet app))
        \<and> sorted (registryNames (fst (renameSelectedOverride newName app w)))
        \<and> mset (overrides (fst (renameSelectedOverride newName app w))) = mset (overrides app))"
proof (intro conjI impI)
  assume "RenameFails w (FolderPath (heap app t))
        (filepath_Join (filepath_Dir (FolderPath (heap app t))) newName)"
  with assms show "renameSelectedOverride newName app w = (app, w)"
    by (simp add: rename_unchanged)
next
  assume ok: "\<not> RenameFails w (FolderPath (heap app t))
        (filepath_Join (filepath_Dir (FolderPath (heap app t))) newName)"
  note r = rename_result [OF assms ok]
  show "heap (fst (renameSelectedOverride newName app w))
            = (heap app)(t := (heap app t)\<lparr>Name := newName,
                FolderPath := filepath_Join (filepath_Dir (FolderPath (heap app t))) newName\<rparr>)"
    by (rule r(1))
  show a: "appliedSet (fst (renameSelectedOverride newName app w))
            = (if Name (heap app t) \<in> appliedSet app
               then insert newName (appliedSet app - {Name (heap app t)})
               else appliedSet app)"
    by (rule r(3))
  show "newName \<in> appliedSet (fst (renameSelectedOverride newName app w))
                    \<longleftrightarrow> Name (heap app t) \<in> appliedSet app"
    if "newName \<notin> appliedSet app"
    using that by (simp add: a)
  show "sorted (registryNames (fst (renameSelectedOverride newName app w)))"
    unfolding registryNames_def r(1,2) by (rule sorted_names_sortByName)
  show "mset (overrides (fst (renameSelectedOverride newName app w))) = mset (overrides app)"
    by (simp add: r(2))
qed

theorem C5_rename_witness:
  "renameTarget (showRenameInput demoApp) = Some 0
   \<and> renameSelectedOverride ''zeta'' (showRenameInput demoApp) renameFailWorld
        = (showRenameInput demoApp, renameFailWorld)
   \<and> Name (heap (fst (renameSelectedOverride ''zeta'' (showRenameInput demoApp) demoWorld)) 0) = ''zeta''
   \<and> ''zeta'' \<notin> appliedSet (fst (renameSelectedOverride ''zeta'' (showRenameInput demoApp) demoWorld))
   \<and> sorted (registryNames (fst (renameSelectedOverride ''zeta'' (showRenameInput demoApp) demoWorld)))
   \<and> mset (overrides (fst (renameSelectedOverride ''zeta'' (showRenameInput demoApp) demoWorld))) = mset [0, 1]"
proof -
  let ?app = "showRenameInput demoApp"
  have h: "renameTarget ?app = Some 0"
    by (simp add: showRenameInput_target demoApp_selected)
  have f: "RenameFails renameFailWorld (FolderPath (heap ?app 0))
        (filepath_Join (filepath_Dir (FolderPath (heap ?app 0))) ''zeta'')"
    by (simp add: renameFailWorld_def)
  have s: "\<not> RenameFails demoWorld (FolderPath (heap ?app 0))
        (filepath_Join (filepath_Dir (FolderPath (heap ?app 0))) ''zeta'')"
    by (simp add: demoWorld_def quietWorld_def)
  have e: "appliedSet ?app = {}"
    using demoApp_appliedSet by (simp add: appliedSet_def)
  from C5_rename [OF h, where w = renameFailWorld and newName = "''zeta''"] f
  have 1: "renameSelectedOverride ''zeta'' ?app renameFailWorld = (?app, renameFailWorld)"
    by blast
  from C5_rename [OF h, where w = demoWorld and newName = "''zeta''"] s
  have 2: "heap (fst (renameSelectedOverride ''zeta'' ?app demoWorld))
            = (heap ?app)(0 := (heap ?app 0)\<lparr>Name := ''zeta'',
                FolderPath := filepath_Join (filepath_Dir (FolderPath (heap ?app 0))) ''zeta''\<rparr>)"
    and 3: "appliedSet (fst (renameSelectedOverride ''zeta'' ?app demoWorld))
            = (if Name (heap ?app 0) \<in> appliedSet ?app
               then insert ''zeta'' (appliedSet ?app - {Name (heap ?app 0)})
               else appliedSet ?app)"
    and 4: "sorted (registryNames (fst (renameSelectedOverride ''zeta'' ?app demoWorld)))"
    and 5: "mset (overrides (fst (renameSelectedOverride ''zeta'' ?app demoWorld))) = mset (overrides ?app)"
    by blast+
  from 2 have 6: "Name (heap (fst (renameSelectedOverride ''zeta'' ?app demoWorld)) 0) = ''zeta''"
    by simp
  from 3 e have 7: "''zeta'' \<notin> appliedSet (fst (renameSelectedOverride ''zeta'' ?app demoWorld))"
    by simp
  from 5 have 8: "mset (overrides (fst (renameSelectedOverride ''zeta'' ?app demoWorld))) = mset [0, 1]"
    by (simp add: demoApp_overrides)
  from h 1 6 7 4 8 show ?thesis by blast
qed

text \<open>
  Claim C5 as stated fails when the new name is already in the Applied set: \<open>broken\<close>
  is not applied, the Applied set holds \<open>ghost\<close>, and after renaming \<open>broken\<close> to
  \<open>ghost\<close> the Override is applied.
\<close>

theorem C5_counterexample:
  "renameTarget (showRenameInput ghostApp) = Some 0
   \<and> Name (heap (showRenameInput ghostApp) 0) = ''broken''
   \<and> ''broken'' \<notin> appliedSet (showRenameInput ghostApp)
   \<and> \<not> RenameFails ghostWorld (FolderPath (heap (showRenameInput ghostApp) 0))
        (filepath_Join (filepath_Dir (FolderPath (heap (showRenameInput ghostApp) 0))) ''ghost'')
   \<and> Name (heap (fst (renameSelectedOverride ''ghost'' (showRenameInput ghostApp) ghostWorld)) 0)
        = ''ghost''
   \<and> ''ghost'' \<in> appliedSet (fst (renameSelectedOverride ''ghost'' (showRenameInput ghostApp) ghostWorld))"
proof -
  let ?app = "showRenameInput ghostApp"
  have h: "renameTarget ?app = Some 0"
    by (simp add: showRenameInput_target ghostApp_selected)
  have n: "Name (heap ?app 0) = ''broken''"
    unfolding ghostApp_def loadPersistedState_def ghostWorld_def
    by (simp add: case_prod_beta) code_simp
  have a: "appliedSet ?app = {''ghost''}"
    by (auto simp: appliedSet_def ghostApp_applied isApplied_def split: if_splits)
  have s: "\<not> RenameFails ghostWorld (FolderPath (heap ?app 0))
        (filepath_Join (filepath_Dir (FolderPath (heap ?app 0))) ''ghost'')"
    by (simp add: ghostWorld_def demoWorld_def quietWorld_def)
  note r = rename_result [OF h s]
  have 1: "Name (heap (fst (renameSelectedOverride ''ghost'' ?app ghostWorld)) 0) = ''ghost''"
    by (simp add: r(1))
  have 2: "''ghost'' \<in> appliedSet (fst (renameSelectedOverride ''ghost'' ?app ghostWorld))"
    by (simp add: r(3) a n)
  from h n a s 1 2 show ?thesis by simp
qed

subsection \<open>Claim C6\<close>

text \<open>
  Claim C6 fails on the code. With \<open>os.RemoveAll\<close> failing for the folder of the
  selected Override \<open>broken\<close>, \<open>deleteSelectedOverride\<close> removes \<open>broken\<close> from the
  registry and ends in the process state and state file of a successful removal:
  nothing tells the caller that the folder is still there.
\<close>

theorem C6_delete_drops_removal_error:
  "getSelectedOverride demoApp = Some 0
   \<and> Name (heap demoApp 0) = ''broken''
   \<and> RemoveAllFails removeFailWorld (FolderPath (heap demoApp 0))
   \<and> registryNames (fst (deleteSelectedOverride demoApp removeFailWorld)) = [''good'']
   \<and> fst (deleteSelectedOverride demoApp removeFailWorld)
       = fst (deleteSelectedOverride demoApp demoWorld)
   \<and> envrc (snd (deleteSelectedOverride demoApp removeFailWorld))
       = envrc (snd (deleteSelectedOverride demoApp demoWorld))"
proof -
  have 1: "Name (heap demoApp 0) = ''broken''"
    by code_simp
  have 2: "RemoveAllFails removeFailWorld (FolderPath (heap demoApp 0))"
    by (simp add: removeFailWorld_def)
  have 3: "registryNames (fst (deleteSelectedOverride demoApp removeFailWorld)) = [''good'']"
    by (simp add: delete_registryNames demoApp_selected demoApp_names 1)
  from demoApp_selected 1 2 3 delete_ignores_RemoveAll [where app = demoApp and w = demoWorld and f = "\<lambda>_. True"]
  show ?thesis by (simp add: removeFailWorld_def)
qed

subsection \<open>Claim C7\<close>

text \<open>
  Claim C7. Started on an empty collection, \<open>loadOverrides\<close> returns an error exactly
  when the overrides root cannot be enumerated. A subfolder whose \<open>apply.md\<close> cannot
  be read is not in the registry, whatever \<open>override.yaml\<close> holds. A subfolder whose
  \<open>apply.md\<close> starts with \<open>---\<close> and whose frontmatter fails to parse is in the
  registry, with \<open>ApplyInfo\<close> set and \<open>Type\<close>, \<open>Block\<close>, \<open>File\<close>, \<open>ModulePath\<close> and
  \<open>Module\<close> empty, and the load returns no error.
\<close>

theorem C7_loadOverrides:
  assumes "overrides app = []"
  shows "(fst (loadOverrides w app) \<noteq> None
            \<longleftrightarrow> ReadDir w (expandPath w (OverridesDir (config app))) = None)
    \<and> (\<forall>entries name.
          ReadDir w (expandPath w (OverridesDir (config app))) = Some entries
          \<and> ReadFile w (filepath_Join (filepath_Join (expandPath w (OverridesDir (config app))) name)
               ''apply.md'') = None
          \<longrightarrow> name \<notin> set (registryNames (snd (loadOverrides w app))))
    \<and> (\<forall>entries entry content.
          ReadDir w (expandPath w (OverridesDir (config app))) = Some entries
          \<and> entry \<in> set entries \<and> entIsDir entry
          \<and> ReadFile w (filepath_Join (filepath_Join (expandPath w (OverridesDir (config app)))
               (entName entry)) ''apply.md'') = Some content
          \<and> strings_HasPrefix content ''---''
          \<and> yamlUnmarshal w (hd (strings_SplitN2 (drop 3 content) ''---'')) = None
          \<longrightarrow> fst (loadOverrides w app) = None
            \<and> (\<exists>a \<in> set (overrides (snd (loadOverrides w app))).
                  Name (heap (snd (loadOverrides w app)) a) = entName entry
                  \<and> ApplyInfo (heap (snd (loadOverrides w app)) a) = content
                  \<and> Type (heap (snd (loadOverrides w app)) a) = []
                  \<and> Block (heap (snd (loadOverrides w app)) a) = []
                  \<and> File (heap (snd (loadOverrides w app)) a) = []
                  \<and> ModulePath (heap (snd (loadOverrides w app)) a) = []
                  \<and> Module (heap (snd (loadOverrides w app)) a) = []))"
proof (intro conjI allI impI)
  let ?dir = "expandPath w (OverridesDir (config app))"
  let ?app' = "snd (loadOverrides w app)"
  show err: "fst (loadOverrides w app) \<noteq> None \<longleftrightarrow> ReadDir w ?dir = None"
    by (rule loadOverrides_error)
  {
    fix entries name
    assume h: "ReadDir w ?dir = Some entries
      \<and> ReadFile w (filepath_Join (filepath_Join ?dir name) ''apply.md'') = None"
    have objs: "map (heap ?app') (overrides ?app')
        = sort_key Name (List.map_filter (parseEntry w ?dir) entries)"
      using loadOverrides_startup_objects assms h by blast
    have "registryNames ?app' = map Name (map (heap ?app') (overrides ?app'))"
      by (simp add: registryNames_def)
    then have names: "set (registryNames ?app') = Name ` set (List.map_filter (parseEntry w ?dir) entries)"
      by (simp add: objs)
    show "name \<notin> set (registryNames ?app')"
    proof
      assume "name \<in> set (registryNames ?app')"
      with names obtain ov entry where "entry \<in> set entries"
        and p: "parseEntry w ?dir entry = Some ov" and "Name ov = name"
        by (auto simp: set_map_filter)
      with parseEntry_Some [OF p] h show False by simp
    qed
  }
  {
    fix entries entry content
    assume h: "ReadDir w ?dir = Some entries
          \<and> entry \<in> set entries \<and> entIsDir entry
          \<and> ReadFile w (filepath_Join (filepath_Join ?dir (entName entry)) ''apply.md'') = Some content
          \<and> strings_HasPrefix content ''---''
          \<and> yamlUnmarshal w (hd (strings_SplitN2 (drop 3 content) ''---'')) = None"
    from h err show "fst (loadOverrides w app) = None" by simp
    have objs: "map (heap ?app') (overrides ?app')
        = sort_key Name (List.map_filter (parseEntry w ?dir) entries)"
      using loadOverrides_startup_objects assms h by blast
    from h obtain ov where p: "parseEntry w ?dir entry = Some ov" and f: "Name ov = entName entry"
      "Type ov = []" "Block ov = []" "File ov = []" "ModulePath ov = []" "Module ov = []"
      "ApplyInfo ov = content"
      using parseEntry_unparsed [of entry w ?dir content] by auto
    from p h have "ov \<in> set (List.map_filter (parseEntry w ?dir) entries)"
      by (auto simp: set_map_filter)
    then have "ov \<in> set (map (heap ?app') (overrides ?app'))"
      by (simp add: objs)
    then obtain a where "a \<in> set (overrides ?app')" and "heap ?app' a = ov"
      by auto
    with f show "\<exists>a \<in> set (overrides ?app').
                  Name (heap ?app' a) = entName entry
                  \<and> ApplyInfo (heap ?app' a) = content
                  \<and> Type (heap ?app' a) = []
                  \<and> Block (heap ?app' a) = []
                  \<and> File (heap ?app' a) = []
                  \<and> ModulePath (heap ?app' a) = []
                  \<and> Module (heap ?app' a) = []"
      by auto
  }
qed

text \<open>
  The example directory: \<open>nometa\<close> has a content file and no \<open>apply.md\<close>, and the
  frontmatter of \<open>broken\<close> does not parse.
\<close>

theorem C7_loadOverrides_witness:
  "fst (loadOverrides demoWorld (newApp demoConfig ''/proj'')) = None
   \<and> ''nometa'' \<notin> set (registryNames (snd (loadOverrides demoWorld (newApp demoConfig ''/proj''))))
   \<and> (\<exists>a \<in> set (overrides (snd (loadOverrides demoWorld (newApp demoConfig ''/proj'')))).
         Name (heap (snd (loadOverrides demoWorld (newApp demoConfig ''/proj''))) a) = ''broken''
         \<and> ApplyInfo (heap (snd (loadOverrides demoWorld (newApp demoConfig ''/proj''))) a) = brokenApply
         \<and> Type (heap (snd (loadOverrides demoWorld (newApp demoConfig ''/proj''))) a) = []
         \<and> Block (heap (snd (loadOverrides demoWorld (newApp demoConfig ''/proj''))) a) = []
         \<and> File (heap (snd (loadOverrides demoWorld (newApp demoConfig ''/proj''))) a) = []
         \<and> ModulePath (heap (snd (loadOverrides demoWorld (newApp demoConfig ''/proj''))) a) = []
         \<and> Module (heap (snd (loadOverrides demoWorld (newApp demoConfig ''/proj''))) a) = [])"
proof -
  let ?app = "newApp demoConfig ''/proj''"
  let ?entries = "[\<lparr>entName = ''broken'', entIsDir = True\<rparr>,
                       \<lparr>entName = ''good'', entIsDir = True\<rparr>,
                       \<lparr>entName = ''nometa'', entIsDir = True\<rparr>,
                       \<lparr>entName = ''notes.txt'', entIsDir = False\<rparr>]"
  have h0: "overrides ?app = []"
    by (simp add: newApp_def)
  have h1: "ReadDir demoWorld (expandPath demoWorld (OverridesDir (config ?app))) = Some ?entries"
    by (simp add: demo_expandPath) (simp add: demoWorld_def quietWorld_def)
  have h2: "ReadFile demoWorld (filepath_Join (filepath_Join
              (expandPath demoWorld (OverridesDir (config ?app))) ''nometa'') ''apply.md'') = None"
    by (simp add: demo_expandPath) code_simp
  have h3: "ReadFile demoWorld (filepath_Join (filepath_Join
              (expandPath demoWorld (OverridesDir (config ?app)))
              (entName \<lparr>entName = ''broken'', entIsDir = True\<rparr>)) ''apply.md'') = Some brokenApply"
    by (simp add: demo_expandPath) code_simp
  have h4: "strings_HasPrefix brokenApply ''---''"
    by code_simp
  have h5: "yamlUnmarshal demoWorld (hd (strings_SplitN2 (drop 3 brokenApply) ''---'')) = None"
    by code_simp
  note t = C7_loadOverrides [OF h0, of demoWorld]
  from t h1 have a: "fst (loadOverrides demoWorld ?app) = None"
    by simp
  from t h1 h2 have b: "''nometa'' \<notin> set (registryNames (snd (loadOverrides demoWorld ?app)))"
    by blast
  have m: "\<lparr>entName = ''broken'', entIsDir = True\<rparr> \<in> set ?entries"
    by simp
  from t have "ReadDir demoWorld (expandPath demoWorld (OverridesDir (config ?app))) = Some ?entries
          \<and> \<lparr>entName = ''broken'', entIsDir = True\<rparr> \<in> set ?entries \<and> entIsDir \<lparr>entName = ''broken'', entIsDir = True\<rparr>
          \<and> ReadFile demoWorld (filepath_Join (filepath_Join (expandPath demoWorld (OverridesDir (config ?app)))
               (entName \<lparr>entName = ''broken'', entIsDir = True\<rparr>)) ''apply.md'') = Some brokenApply
          \<and> strings_HasPrefix brokenApply ''---''
          \<and> yamlUnmarshal demoWorld (hd (strings_SplitN2 (drop 3 brokenApply) ''---'')) = None
          \<longrightarrow> fst (loadOverrides demoWorld ?app) = None
            \<and> (\<exists>a \<in> set (overrides (snd (loadOverrides demoWorld ?app))).
                  Name (heap (snd (loadOverrides demoWorld ?app)) a) = entName \<lparr>entName = ''broken'', entIsDir = True\<rparr>
                  \<and> ApplyInfo (heap (snd (loadOverrides demoWorld ?app)) a) = brokenApply
                  \<and> Type (heap (snd (loadOverrides demoWorld ?app)) a) = []
                  \<and> Block (heap (snd (loadOverrides demoWorld ?app)) a) = []
                  \<and> File (heap (snd (loadOverrides demoWorld ?app)) a) = []
                  \<and> ModulePath (heap (snd (loadOverrides demoWorld ?app)) a) = []
                  \<and> Module (heap (snd (loadOverrides demoWorld ?app)) a) = [])"
    by blast
  with h1 m h3 h4 h5 have c: "\<exists>a \<in> set (overrides (snd (loadOverrides demoWorld ?app))).
                  Name (heap (snd (loadOverrides demoWorld ?app)) a) = ''broken''
                  \<and> ApplyInfo (heap (snd (loadOverrides demoWorld ?app)) a) = brokenApply
                  \<and> Type (heap (snd (loadOverrides demoWorld ?app)) a) = []
                  \<and> Block (heap (snd (loadOverrides demoWorld ?app)) a) = []
                  \<and> File (heap (snd (loadOverrides demoWorld ?app)) a) = []
                  \<and> ModulePath (heap (snd (loadOverrides demoWorld ?app)) a) = []
                  \<and> Module (heap (snd (loadOverrides demoWorld ?app)) a) = []"
    by simp
  from a b c show ?thesis by blast
qed

subsection \<open>Claim C8\<close>

text \<open>
  Claim C8, amended. When the prior file has no line of \<open>MaxScanTokenSize\<close> bytes or
  more and the write succeeds, the rewritten file consists of the prior file's lines
  that are not managed assignments, each without one trailing carriage return, in
  their original order and each ended by a newline, followed by the managed lines that
  are written anew; and every line written anew is a managed assignment.
\<close>

theorem C8_unmanaged_lines_kept:
  assumes "\<not> writeFails w"
    and "envrc w = FileContent data"
    and "\<forall>l \<in> set (textLines data). length l < MaxScanTokenSize"
  shows "envrc (snd (savePersistedState app w))
     = FileContent (concat (map (\<lambda>l. l @ [nl])
         (filter (\<lambda>l. \<not> isManaged app l) (map dropCR (textLines data)) @ managedLines app)))
   \<and> (\<forall>l \<in> set (managedLines app). isManaged app l)"
  using assms
  by (simp add: save_content keptLines_def scanLines_textLines managedLines_managed)

theorem C8_unmanaged_lines_kept_witness:
  "textLines demoEnvrc =
     [''PATH_add bin'',
      ''export HYDRA_OVERRIDES='' @ [dquote] @ ''b2xk'' @ [dquote],
      ''export HYDRA_OVERRIDE_STR='' @ [dquote] @ ''old'' @ [dquote],
      ''layout python'']
   \<and> envrc (snd (savePersistedState bothApplied (quietWorld\<lparr>envrc := FileContent demoEnvrc\<rparr>)))
     = FileContent
        (''PATH_add bin'' @ [nl]
         @ ''layout python'' @ [nl]
         @ ''export HYDRA_OVERRIDES='' @ [dquote] @ ''YWxwaGEsYmV0YQ=='' @ [dquote] @ [nl]
         @ ''export HYDRA_OVERRIDE_STR='' @ [dquote]
         @ ''+overrides/alpha@log.level=override =overrides/beta@log.level=override''
         @ [dquote] @ [nl])"
proof -
  let ?w = "quietWorld\<lparr>envrc := FileContent demoEnvrc\<rparr>"
  have 1: "\<not> writeFails ?w"
    by (simp add: quietWorld_def)
  have 2: "envrc ?w = FileContent demoEnvrc"
    by simp
  have 3: "\<forall>l \<in> set (textLines demoEnvrc). length l < MaxScanTokenSize"
    by (simp add: demoEnvrc_lines MaxScanTokenSize_def)
  have k: "filter (\<lambda>l. \<not> isManaged bothApplied l) (map dropCR (textLines demoEnvrc))
             = [''PATH_add bin'', ''layout python'']"
    by (simp add: demoEnvrc_lines isManaged_def managedPrefix_def bothApplied_def alphaBeta_fields
        demoConfig_def dropCR_def cr_def dquote_def strings_HasPrefix_def)
  from C8_unmanaged_lines_kept [OF 1 2 3, of bothApplied]
  have "envrc (snd (savePersistedState bothApplied ?w))
     = FileContent (concat (map (\<lambda>l. l @ [nl])
         ([''PATH_add bin'', ''layout python''] @ managedLines bothApplied)))"
    by (simp only: k)
  then show ?thesis
    by (simp add: demoEnvrc_lines bothApplied_managed)
qed

text \<open>
  Claim C8 as stated fails in two ways. The line \<open>keep\<close> followed by a carriage return
  is rewritten without the carriage return. And after a line of \<open>MaxScanTokenSize\<close>
  bytes the scanner stops with \<open>ErrTooLong\<close>, which \<open>savePersistedState\<close> does not
  look at: the line \<open>keep\<close> that follows is lost.
\<close>

theorem C8_counterexample:
  "(''keep'' @ [cr]) \<in> set (textLines crlfEnvrc)
   \<and> \<not> isManaged (newApp demoConfig ''/proj'') (''keep'' @ [cr])
   \<and> envrc (snd (savePersistedState (newApp demoConfig ''/proj'')
               (quietWorld\<lparr>envrc := FileContent crlfEnvrc\<rparr>)))
       = FileContent (''keep'' @ [nl] @ ''export HYDRA_OVERRIDE_STR='' @ [dquote, dquote] @ [nl])
   \<and> (''keep'' @ [cr])
       \<notin> set (textLines (''keep'' @ [nl] @ ''export HYDRA_OVERRIDE_STR='' @ [dquote, dquote] @ [nl]))
   \<and> ''keep'' \<in> set (textLines longEnvrc)
   \<and> \<not> isManaged (newApp demoConfig ''/proj'') ''keep''
   \<and> envrc (snd (savePersistedState (newApp demoConfig ''/proj'')
               (quietWorld\<lparr>envrc := FileContent longEnvrc\<rparr>)))
       = FileContent (''export HYDRA_OVERRIDE_STR='' @ [dquote, dquote] @ [nl])
   \<and> ''keep'' \<notin> set (textLines (''export HYDRA_OVERRIDE_STR='' @ [dquote, dquote] @ [nl]))"
proof -
  let ?app = "newApp demoConfig ''/proj''"
  have w: "\<not> writeFails (quietWorld\<lparr>envrc := FileContent data\<rparr>)" for data
    by (simp add: quietWorld_def)
  have c1: "textLines crlfEnvrc = [''keep'' @ [cr]]"
    by (simp add: textLines_def crlfEnvrc_def nl_def cr_def)
  have c2: "\<not> isManaged ?app (''keep'' @ [cr])" "\<not> isManaged ?app ''keep''"
    by (simp_all add: isManaged_def managedPrefix_def newApp_def demoConfig_def strings_HasPrefix_def)
  have "scanLines crlfEnvrc = ([''keep''], False)"
    by (simp add: scanLines_def crlfEnvrc_def nl_def cr_def dropCR_def MaxScanTokenSize_def)
  then have c3: "envrc (snd (savePersistedState ?app (quietWorld\<lparr>envrc := FileContent crlfEnvrc\<rparr>)))
       = FileContent (''keep'' @ [nl] @ ''export HYDRA_OVERRIDE_STR='' @ [dquote, dquote] @ [nl])"
    using c2(2) by (simp add: save_content [OF w] keptLines_def noneApplied_managed)
  have c4: "(''keep'' @ [cr])
       \<notin> set (textLines (''keep'' @ [nl] @ ''export HYDRA_OVERRIDE_STR='' @ [dquote, dquote] @ [nl]))"
    by (simp add: textLines_def nl_def cr_def dquote_def)
  have "textLinesAcc [] (replicate 65536 (CHR ''a'') @ nl # (''keep'' @ [nl]))
          = ([] @ replicate 65536 (CHR ''a'')) # textLinesAcc [] (''keep'' @ [nl])"
    by (rule textLinesAcc_line) (simp add: nl_def)
  then have l1: "''keep'' \<in> set (textLines longEnvrc)"
    by (simp add: textLines_def longEnvrc_def nl_def)
  have "scanLinesAcc [] (replicate 65536 (CHR ''a'') @ nl # (''keep'' @ [nl]))
          = ([], True)"
    by (subst scanLinesAcc_line) (simp_all add: nl_def MaxScanTokenSize_def)
  then have "scanLines longEnvrc = ([], True)"
    by (simp add: scanLines_def longEnvrc_def)
  then have l3: "envrc (snd (savePersistedState ?app (quietWorld\<lparr>envrc := FileContent longEnvrc\<rparr>)))
       = FileContent (''export HYDRA_OVERRIDE_STR='' @ [dquote, dquote] @ [nl])"
    by (simp add: save_content [OF w] keptLines_def noneApplied_managed)
  have l4: "''keep'' \<notin> set (textLines (''export HYDRA_OVERRIDE_STR='' @ [dquote, dquote] @ [nl]))"
    by (simp add: textLines_def nl_def dquote_def)
  from c1 c2 c3 c4 l1 l3 l4 show ?thesis
    by simp
qed

subsection \<open>Claim C9\<close>

text \<open>
  Claim C9 fails on the code. After \<open>apply.md\<close> of \<open>good\<close> was edited to carry
  \<open>module_path: configs/logging\<close>, \<open>reloadOverride\<close> takes the new \<open>ApplyInfo\<close> and
  leaves \<open>ModulePath\<close> empty, where a fresh load of the same files sets it.
\<close>

theorem C9_reload_keeps_stale_module_path:
  "map (\<lambda>a. Name (heap reloadedApp a)) (overrides reloadedApp) = [''broken'', ''good'']
   \<and> map (\<lambda>a. Name (heap freshApp a)) (overrides freshApp) = [''broken'', ''good'']
   \<and> map (\<lambda>a. ApplyInfo (heap reloadedApp a)) (overrides reloadedApp) = [brokenApply, editedApply]
   \<and> map (\<lambda>a. ApplyInfo (heap freshApp a)) (overrides freshApp) = [brokenApply, editedApply]
   \<and> map (\<lambda>a. ModulePath (heap reloadedApp a)) (overrides reloadedApp) = [[], []]
   \<and> map (\<lambda>a. ModulePath (heap freshApp a)) (overrides freshApp) = [[], ''configs/logging'']"
  by code_simp

subsection \<open>Claim C10\<close>

text \<open>
  Claim C10, amended. The names that \<open>savePersistedState\<close> encodes are the names of the
  collection, in its order, that are applied; the written lines are the kept lines,
  the applied-names line built from these names when there is one, and the
  override-string line. When the applied registry names are non-empty, hold no comma
  and have no leading or trailing white space (and key, line length and write are as in
  C1), a load after the save yields the Applied set intersected with the registry's
  names.
\<close>

theorem C10_saved_names:
  assumes "\<not> writeFails w"
    and "nl \<notin> set (EnvVarName (config app))"
    and "\<forall>n \<in> appliedSet app \<inter> set (registryNames app).
           n \<noteq> [] \<and> CHR '','' \<notin> set n \<and> strings_TrimSpace n = n"
    and "length (appliedLine app) < MaxScanTokenSize"
    and "config app0 = config app"
    and "applied app0 = Map.empty"
  shows "collectApplied (heap app) (applied app) (overrides app) []
           = filter (isApplied (applied app)) (registryNames app)
    \<and> savedLines app (envrc w)
           = keptLines app (envrc w)
             @ (if filter (isApplied (applied app)) (registryNames app) = [] then []
                else [''export '' @ EnvVarName (config app) @ ''='' @ [dquote]
                        @ base64_EncodeToString
                            (strings_Join (filter (isApplied (applied app)) (registryNames app)) '','')
                        @ [dquote]])
             @ [overrideStrLine app]
    \<and> fst (loadPersistedState (snd (savePersistedState app w)) app0) = None
    \<and> appliedSet (snd (loadPersistedState (snd (savePersistedState app w)) app0))
           = appliedSet app \<inter> set (registryNames app)"
proof -
  from assms(3) have v: "\<forall>n \<in> set (appliedNamesOf app). n \<noteq> [] \<and> CHR '','' \<notin> set n"
    and t: "\<forall>n \<in> set (appliedNamesOf app). strings_TrimSpace n = n \<and> n \<noteq> []"
    by (auto simp: appliedNamesOf_set)
  have 1: "collectApplied (heap app) (applied app) (overrides app) []
           = filter (isApplied (applied app)) (registryNames app)"
    by (simp add: collectApplied_eq registryNames_def)
  have 2: "savedLines app (envrc w)
           = keptLines app (envrc w)
             @ (if filter (isApplied (applied app)) (registryNames app) = [] then []
                else [''export '' @ EnvVarName (config app) @ ''='' @ [dquote]
                        @ base64_EncodeToString
                            (strings_Join (filter (isApplied (applied app)) (registryNames app)) '','')
                        @ [dquote]])
             @ [overrideStrLine app]"
    by (simp add: savedLines_eq managedLines_def appliedLine_def managedPrefix_def appliedNamesOf_def)
  from v have c: "\<forall>n \<in> set (appliedNamesOf app). CHR '','' \<notin> set n"
    by simp
  from save_load_valid [OF assms(1,2) c assms(4,5)] assms(6) appliedSet_addNames [OF t]
    appliedNamesOf_set
  have 3: "fst (loadPersistedState (snd (savePersistedState app w)) app0) = None
    \<and> appliedSet (snd (loadPersistedState (snd (savePersistedState app w)) app0))
           = appliedSet app \<inter> set (registryNames app)"
    by simp
  from 1 2 3 show ?thesis by blast
qed

theorem C10_saved_names_witness:
  "appliedSet withOrphan = {''alpha'', ''ghost''}
   \<and> registryNames withOrphan = [''alpha'', ''beta'']
   \<and> collectApplied (heap withOrphan) (applied withOrphan) (overrides withOrphan) [] = [''alpha'']
   \<and> appliedSet (snd (loadPersistedState (snd (savePersistedState withOrphan quietWorld))
            (newApp demoConfig ''/proj''))) = {''alpha''}"
proof -
  have 1: "\<not> writeFails quietWorld"
    by (simp add: quietWorld_def)
  have 2: "nl \<notin> set (EnvVarName (config withOrphan))"
    by (simp add: withOrphan_def alphaBeta_fields demoConfig_def nl_def)
  have r: "registryNames withOrphan = [''alpha'', ''beta'']"
    by (simp add: withOrphan_def alphaBeta_fields)
  have i: "appliedSet withOrphan \<inter> set (registryNames withOrphan) = {''alpha''}"
    by (auto simp: withOrphan_set r)
  have 3: "\<forall>n \<in> appliedSet withOrphan \<inter> set (registryNames withOrphan).
             n \<noteq> [] \<and> CHR '','' \<notin> set n \<and> strings_TrimSpace n = n"
    by (simp add: i trimSpace_alpha)
  have f: "filter (isApplied (applied withOrphan)) (registryNames withOrphan) = [''alpha'']"
    by (simp add: withOrphan_def alphaBeta_fields isApplied_def)
  then have "appliedNamesOf withOrphan = [''alpha'']"
    by (simp add: appliedNamesOf_def)
  then have 4: "length (appliedLine withOrphan) < MaxScanTokenSize"
    by (intro appliedLine_short) (simp_all add: withOrphan_def alphaBeta_fields demoConfig_def)
  have 5: "config (newApp demoConfig ''/proj'') = config withOrphan"
    by (simp add: withOrphan_def alphaBeta_fields newApp_def)
  have 6: "applied (newApp demoConfig ''/proj'') = Map.empty"
    by (simp add: newApp_def)
  from C10_saved_names [OF 1 2 3 4 5 6] withOrphan_set r i f show ?thesis
    by simp
qed

text \<open>
  Claim C10 as stated fails for a registry name with a comma: the folder \<open>a,b\<close> is
  applied and saved, and the load splits the decoded list at the comma into \<open>a\<close> and
  \<open>b\<close>.
\<close>

theorem C10_counterexample:
  "registryNames (appliedOne ''a,b'') = [''a,b'']
   \<and> appliedSet (appliedOne ''a,b'') = {''a,b''}
   \<and> savedOne ''a,b'' = snd (savePersistedState (appliedOne ''a,b'') (oneFolderWorld ''a,b''))
   \<and> restartedOne ''a,b'' = snd (loadPersistedState (savedOne ''a,b'') (loadedOne ''a,b''))
   \<and> appliedSet (restartedOne ''a,b'') = {''a'', ''b''}"
proof -
  note l = loadedOne_comma
  have "applied (restartedOne ''a,b'') = [''a'' \<mapsto> True, ''b'' \<mapsto> True]"
    using restarted_one [OF l(1-4)]
    by (simp add: strings_Split_def strings_HasPrefix_def strings_TrimSpace_def
        trimLeftEncodings.simps spaceEncodings_def)
  then have "appliedSet (restartedOne ''a,b'') = {''a'', ''b''}"
    by (auto simp: appliedSet_def isApplied_def split: if_splits)
  with appliedOne_sets [OF l(1-4)] show ?thesis
    by (simp add: restartedOne_def)
qed

end
